theory Spec2Isabelle
  imports Complex_Main "HOL-Library.Char_ord" "HOL-Library.List_Lexorder"
begin

section \<open>DF-ISE grid parser: connectivity reconstruction, validation and NAS export\<close>

text \<open>
  A shallow embedding of \<^verbatim>\<open>src/dfise_parser.py\<close> (class \<^verbatim>\<open>DFISEParser\<close>).
  Python integers are \<^typ>\<open>int\<close>, tuples of vertex indices are lists, exceptions are the
  left summand of a sum type, and the parser object's diagnostic fields are a record that
  is passed in and returned.
\<close>

subsection \<open>Exceptions\<close>

datatype py_error =
    IndexError
  | ValueError
  | TypeError
  | ZeroDivisionError
  | OverflowError
  | RuntimeError
  | CorruptedFileError
  | MissingRequiredSectionError

subsection \<open>Face reconstruction (\<^verbatim>\<open>_reconstruct_face_vertices\<close>)\<close>

text \<open>
  \<^verbatim>\<open>xs[i]\<close> on a Python list: position \<open>i\<close> when it exists, position \<open>len(xs) + i\<close> for
  a negative \<open>i\<close> no smaller than \<open>-len(xs)\<close>, and \<^verbatim>\<open>IndexError\<close> otherwise. Both branches
  of the reconstruction compute a non-negative \<^verbatim>\<open>actual_idx\<close>, so only the first and the
  last case arise there.
\<close>

definition list_item :: "'a list \<Rightarrow> int \<Rightarrow> py_error + 'a" where
  "list_item xs i =
     (if 0 \<le> i \<and> nat i < length xs then Inr (xs ! nat i)
      else if i < 0 \<and> nat (- i) \<le> length xs then Inr (xs ! (length xs - nat (- i)))
      else Inl IndexError)"

text \<open>The body of the loop over \<^verbatim>\<open>face_edges\<close>: the ordered vertex pair of one signed reference.\<close>

definition edge_verts_of :: "int \<Rightarrow> (int \<times> int) list \<Rightarrow> py_error + (int \<times> int)" where
  "edge_verts_of edge_idx edges =
     (if edge_idx < 0 then
        (let actual_idx = - edge_idx - 1 in
         case list_item edges actual_idx of
           Inl e \<Rightarrow> Inl e
         | Inr (v1, v2) \<Rightarrow> Inr (v2, v1))
      else
        (let actual_idx = edge_idx in list_item edges actual_idx))"

text \<open>The loop itself: \<^verbatim>\<open>vertices.extend(edge_verts)\<close> for each reference in turn.\<close>

fun extend_vertices :: "int list \<Rightarrow> (int \<times> int) list \<Rightarrow> int list \<Rightarrow> py_error + int list" where
  "extend_vertices [] edges vertices = Inr vertices"
| "extend_vertices (edge_idx # rest) edges vertices =
     (case edge_verts_of edge_idx edges of
        Inl e \<Rightarrow> Inl e
      | Inr (a, b) \<Rightarrow> extend_vertices rest edges (vertices @ [a, b]))"

text \<open>The second loop: \<^verbatim>\<open>if v not in unique_verts: unique_verts.append(v)\<close>.\<close>

fun unique_in_order :: "int list \<Rightarrow> int list \<Rightarrow> int list" where
  "unique_in_order [] unique_verts = unique_verts"
| "unique_in_order (v # vs) unique_verts =
     unique_in_order vs (if v \<notin> set unique_verts then unique_verts @ [v] else unique_verts)"

definition reconstruct_face_vertices ::
  "int \<times> int \<times> int \<Rightarrow> (int \<times> int) list \<Rightarrow> py_error + int list" where
  "reconstruct_face_vertices face_edges edges =
     (case face_edges of (e1, e2, e3) \<Rightarrow>
        (case extend_vertices [e1, e2, e3] edges [] of
           Inl e \<Rightarrow> Inl e
         | Inr vertices \<Rightarrow>
             (let unique_verts = unique_in_order vertices []
              in Inr (if length unique_verts \<noteq> 3 then take 3 unique_verts else unique_verts))))"

subsection \<open>The specification's reading of a signed edge reference\<close>

text \<open>
  Following the specification's words: a non-negative reference \<open>k\<close> is edge \<open>k\<close> as stored,
  a negative reference \<open>-(k+1)\<close> is edge \<open>k\<close> with its two vertices swapped.
\<close>

definition ref_index :: "int \<Rightarrow> nat" where
  "ref_index r = (if r < 0 then nat (- (r + 1)) else nat r)"

definition spec_edge_pair :: "int \<Rightarrow> (int \<times> int) list \<Rightarrow> int \<times> int" where
  "spec_edge_pair r edges =
     (if r < 0 then prod.swap (edges ! ref_index r) else edges ! ref_index r)"

definition pair_list :: "int \<times> int \<Rightarrow> int list" where
  "pair_list p = [fst p, snd p]"

text \<open>First-seen order with duplicates removed.\<close>

definition first_seen :: "int list \<Rightarrow> int list" where
  "first_seen xs = rev (remdups (rev xs))"

definition spec_face_sequence :: "int \<times> int \<times> int \<Rightarrow> (int \<times> int) list \<Rightarrow> int list" where
  "spec_face_sequence face_edges edges =
     (case face_edges of (e1, e2, e3) \<Rightarrow>
        pair_list (spec_edge_pair e1 edges) @ pair_list (spec_edge_pair e2 edges) @
        pair_list (spec_edge_pair e3 edges))"

subsection \<open>Element reconstruction (\<^verbatim>\<open>_reconstruct_element_vertices\<close>)\<close>

text \<open>
  The Python \<^verbatim>\<open>set\<close> of vertices is a HOL set of integers. The loop over
  \<^verbatim>\<open>element_faces\<close> resolves the sign to \<^verbatim>\<open>actual_idx\<close> and adds the face's vertices with
  \<^verbatim>\<open>vertices.update(face_verts)\<close>.
\<close>

fun update_vertices :: "int list \<Rightarrow> int list list \<Rightarrow> int set \<Rightarrow> py_error + int set" where
  "update_vertices [] faces_as_vertices vertices = Inr vertices"
| "update_vertices (face_idx # rest) faces_as_vertices vertices =
     (let actual_idx = (if face_idx < 0 then - face_idx - 1 else face_idx) in
      case list_item faces_as_vertices actual_idx of
        Inl e \<Rightarrow> Inl e
      | Inr face_verts \<Rightarrow> update_vertices rest faces_as_vertices (vertices \<union> set face_verts))"

text \<open>\<^verbatim>\<open>while len(vert_list) < 4: vert_list.append(0)\<close>\<close>

function pad_zero :: "int list \<Rightarrow> int list" where
  "pad_zero vert_list = (if length vert_list < 4 then pad_zero (vert_list @ [0]) else vert_list)"
  by pat_completeness auto
termination
  by (relation "measure (\<lambda>vert_list. 4 - length vert_list)") auto

declare pad_zero.simps [simp del]

text \<open>
  \<^verbatim>\<open>list(vertices)\<close> lists a set in the interpreter's iteration order, which the language
  leaves open. It is the parameter \<open>list_of\<close>; \<^verbatim>\<open>sorted(vertices)\<close> is
  \<^const>\<open>sorted_list_of_set\<close>.
\<close>

definition reconstruct_element_vertices ::
  "(int set \<Rightarrow> int list) \<Rightarrow> int \<times> int \<times> int \<times> int \<Rightarrow> int list list \<Rightarrow> py_error + int list" where
  "reconstruct_element_vertices list_of element_faces faces_as_vertices =
     (case element_faces of (f1, f2, f3, f4) \<Rightarrow>
        (case update_vertices [f1, f2, f3, f4] faces_as_vertices {} of
           Inl e \<Rightarrow> Inl e
         | Inr vertices \<Rightarrow>
             if card vertices \<noteq> 4 then
               (let vert_list = pad_zero (list_of vertices) in Inr (take 4 vert_list))
             else Inr (sorted_list_of_set vertices)))"

text \<open>
  Following the specification's words: the union of the vertex sets of the four referenced
  faces, each reference resolved to its underlying face index.
\<close>

definition spec_element_union :: "int \<times> int \<times> int \<times> int \<Rightarrow> int list list \<Rightarrow> int set" where
  "spec_element_union element_faces faces_as_vertices =
     (case element_faces of (f1, f2, f3, f4) \<Rightarrow>
        set (faces_as_vertices ! ref_index f1) \<union> set (faces_as_vertices ! ref_index f2) \<union>
        set (faces_as_vertices ! ref_index f3) \<union> set (faces_as_vertices ! ref_index f4))"

subsection \<open>The Info block and its values\<close>

text \<open>
  A value of the Info dictionary as the reading loop leaves it: an integer, a string that did
  not parse as a number, or a list of names. The dataclass \<^verbatim>\<open>InfoBlock\<close> does not check
  the types of its fields, so they hold such values. Floating-point values are outside the
  model.
\<close>

datatype py_value = IntV int | StrV string | ListV "string list"

record InfoBlock =
  version :: py_value
  type :: py_value
  dimension :: py_value
  nb_vertices :: py_value
  nb_edges :: py_value
  nb_faces :: py_value
  nb_elements :: py_value
  nb_regions :: py_value
  regions :: py_value
  materials :: py_value

subsection \<open>Diagnostics of the parser object\<close>

datatype ParseResult = SUCCESS | WARNING | ERROR | CORRUPTED

text \<open>
  The messages are kept as data: the kind of message and the values the source formats into
  its text.
\<close>

datatype message =
    ErrorReconstructingFace py_error
  | ErrorReconstructingElement py_error
  | MissingInfoFields "string list"
  | NegativeVertexCount
  | UnusualDimension py_value
  | FailedToCreateInfoBlock
  | FailedToParseSection string py_error
  | FailedToComputeStatistics py_error
  | UnexpectedErrorDuringParsing py_error
  | ErrorParsingFace nat string
  | NoFacesSectionFound

record diagnostics =
  parse_warnings :: "(nat option \<times> message) list"
  parse_errors :: "(nat option \<times> message) list"
  parse_status :: ParseResult

text \<open>
  \<^verbatim>\<open>_add_warning\<close> and \<^verbatim>\<open>_add_error\<close>. The prefix \<^verbatim>\<open>Line n:\<close> is written only when
  \<^verbatim>\<open>line_num\<close> is truthy, that is neither \<^verbatim>\<open>None\<close> nor 0.
\<close>

definition line_prefix :: "nat option \<Rightarrow> nat option" where
  "line_prefix line_num = (case line_num of None \<Rightarrow> None | Some n \<Rightarrow> if n = 0 then None else Some n)"

definition add_warning :: "message \<Rightarrow> nat option \<Rightarrow> diagnostics \<Rightarrow> diagnostics" where
  "add_warning msg line_num st =
     st\<lparr>parse_warnings := parse_warnings st @ [(line_prefix line_num, msg)],
        parse_status := (if parse_status st = SUCCESS then WARNING else parse_status st)\<rparr>"

definition add_error :: "message \<Rightarrow> nat option \<Rightarrow> diagnostics \<Rightarrow> diagnostics" where
  "add_error msg line_num st =
     st\<lparr>parse_errors := parse_errors st @ [(line_prefix line_num, msg)],
        parse_status := ERROR\<rparr>"

definition fresh_diagnostics :: diagnostics where
  "fresh_diagnostics = \<lparr>parse_warnings = [], parse_errors = [], parse_status = SUCCESS\<rparr>"

subsection \<open>The reconstruction loops of \<^verbatim>\<open>export_to_nas\<close> (step 3)\<close>

text \<open>
  Each face and each element is reconstructed inside \<^verbatim>\<open>try\<close>; an exception records a
  warning and appends a placeholder tuple of zeros.
\<close>

fun reconstruct_faces ::
  "(int \<times> int \<times> int) list \<Rightarrow> (int \<times> int) list \<Rightarrow> int list list \<Rightarrow> diagnostics \<Rightarrow>
   int list list \<times> diagnostics" where
  "reconstruct_faces [] edges faces_as_vertices st = (faces_as_vertices, st)"
| "reconstruct_faces (face_edges # rest) edges faces_as_vertices st =
     (case reconstruct_face_vertices face_edges edges of
        Inr face_verts \<Rightarrow> reconstruct_faces rest edges (faces_as_vertices @ [face_verts]) st
      | Inl e \<Rightarrow>
          reconstruct_faces rest edges (faces_as_vertices @ [[0, 0, 0]])
            (add_warning (ErrorReconstructingFace e) None st))"

fun reconstruct_elements ::
  "(int set \<Rightarrow> int list) \<Rightarrow> (int \<times> int \<times> int \<times> int) list \<Rightarrow> int list list \<Rightarrow>
   int list list \<Rightarrow> diagnostics \<Rightarrow> int list list \<times> diagnostics" where
  "reconstruct_elements list_of [] faces_as_vertices elements_as_vertices st =
     (elements_as_vertices, st)"
| "reconstruct_elements list_of (elem_faces # rest) faces_as_vertices elements_as_vertices st =
     (case reconstruct_element_vertices list_of elem_faces faces_as_vertices of
        Inr elem_verts \<Rightarrow>
          reconstruct_elements list_of rest faces_as_vertices
            (elements_as_vertices @ [elem_verts]) st
      | Inl e \<Rightarrow>
          reconstruct_elements list_of rest faces_as_vertices
            (elements_as_vertices @ [[0, 0, 0, 0]])
            (add_warning (ErrorReconstructingElement e) None st))"

subsection \<open>Dictionaries\<close>

text \<open>
  A Python \<^verbatim>\<open>dict\<close> is an association list in insertion order. Assigning to a key that
  is present keeps its position; a new key goes to the end.
\<close>

type_synonym ('k, 'v) dict = "('k \<times> 'v) list"

definition dict_get :: "('k, 'v) dict \<Rightarrow> 'k \<Rightarrow> 'v option" where
  "dict_get d k = map_of d k"

definition dict_keys :: "('k, 'v) dict \<Rightarrow> 'k list" where
  "dict_keys d = map fst d"

definition dict_values :: "('k, 'v) dict \<Rightarrow> 'v list" where
  "dict_values d = map snd d"

fun dict_set :: "'k \<Rightarrow> 'v \<Rightarrow> ('k, 'v) dict \<Rightarrow> ('k, 'v) dict" where
  "dict_set k v [] = [(k, v)]"
| "dict_set k v ((k', v') # rest) =
     (if k' = k then (k, v) # rest else (k', v') # dict_set k v rest)"

subsection \<open>\<^verbatim>\<open>parse_info_block\<close>: validation of the Info dictionary\<close>

text \<open>
  The reading loop of \<^verbatim>\<open>parse_info_block\<close> leaves the flag \<^verbatim>\<open>info_found\<close> and the
  dictionary \<^verbatim>\<open>info_dict\<close>; they are the inputs here, together with
  \<^verbatim>\<open>self.strict_mode\<close>. The result pairs the returned \<^verbatim>\<open>InfoBlock\<close> or the raised
  exception with the diagnostics.
\<close>

definition required_fields :: "string list" where
  "required_fields = [''version'', ''type'', ''dimension'', ''nb_vertices'', ''nb_edges'',
     ''nb_faces'', ''nb_elements'', ''nb_regions'']"

definition defaults :: "(string, py_value) dict" where
  "defaults = [(''version'', StrV ''1.0''), (''type'', StrV ''grid''), (''dimension'', IntV 3),
     (''nb_vertices'', IntV 0), (''nb_edges'', IntV 0), (''nb_faces'', IntV 0),
     (''nb_elements'', IntV 0), (''nb_regions'', IntV 0), (''regions'', ListV []),
     (''materials'', ListV [])]"

text \<open>\<^verbatim>\<open>for field in missing_fields: if field in defaults: info_dict[field] = defaults[field]\<close>\<close>

fun fill_defaults :: "string list \<Rightarrow> (string, py_value) dict \<Rightarrow> (string, py_value) dict" where
  "fill_defaults [] info_dict = info_dict"
| "fill_defaults (field # rest) info_dict =
     fill_defaults rest
       (case dict_get defaults field of
          Some v \<Rightarrow> dict_set field v info_dict
        | None \<Rightarrow> info_dict)"

text \<open>\<^verbatim>\<open>value < 0\<close>: a string or a list against an integer raises \<^verbatim>\<open>TypeError\<close>.\<close>

fun py_less_zero :: "py_value \<Rightarrow> py_error + bool" where
  "py_less_zero (IntV n) = Inr (n < 0)"
| "py_less_zero (StrV s) = Inl TypeError"
| "py_less_zero (ListV l) = Inl TypeError"

text \<open>\<^verbatim>\<open>value not in [2, 3]\<close>\<close>

fun not_in_2_3 :: "py_value \<Rightarrow> bool" where
  "not_in_2_3 (IntV n) = (n \<noteq> 2 \<and> n \<noteq> 3)"
| "not_in_2_3 (StrV s) = True"
| "not_in_2_3 (ListV l) = True"

definition info_fields :: "string list" where
  "info_fields = [''version'', ''type'', ''dimension'', ''nb_vertices'', ''nb_edges'',
     ''nb_faces'', ''nb_elements'', ''nb_regions'', ''regions'', ''materials'']"

text \<open>
  \<^verbatim>\<open>InfoBlock(**info_dict)\<close>: the constructor raises \<^verbatim>\<open>TypeError\<close> unless the keys are
  exactly the ten fields.
\<close>

definition make_InfoBlock :: "(string, py_value) dict \<Rightarrow> py_error + InfoBlock" where
  "make_InfoBlock info_dict =
     (if (\<forall>k \<in> set (dict_keys info_dict). k \<in> set info_fields) \<and>
         (\<forall>f \<in> set info_fields. f \<in> set (dict_keys info_dict))
      then Inr \<lparr>version = the (dict_get info_dict ''version''),
                type = the (dict_get info_dict ''type''),
                dimension = the (dict_get info_dict ''dimension''),
                nb_vertices = the (dict_get info_dict ''nb_vertices''),
                nb_edges = the (dict_get info_dict ''nb_edges''),
                nb_faces = the (dict_get info_dict ''nb_faces''),
                nb_elements = the (dict_get info_dict ''nb_elements''),
                nb_regions = the (dict_get info_dict ''nb_regions''),
                regions = the (dict_get info_dict ''regions''),
                materials = the (dict_get info_dict ''materials'')\<rparr>
      else Inl TypeError)"

definition build_info :: "(string, py_value) dict \<Rightarrow> diagnostics \<Rightarrow> (py_error + InfoBlock) \<times> diagnostics" where
  "build_info info_dict st =
     (case make_InfoBlock info_dict of
        Inr info \<Rightarrow> (Inr info, st)
      | Inl e \<Rightarrow> (Inl CorruptedFileError, add_error FailedToCreateInfoBlock None st))"

definition check_dimension :: "(string, py_value) dict \<Rightarrow> diagnostics \<Rightarrow> diagnostics" where
  "check_dimension info_dict st =
     (case dict_get info_dict ''dimension'' of
        None \<Rightarrow> st
      | Some v \<Rightarrow> if not_in_2_3 v then add_warning (UnusualDimension v) None st else st)"

definition check_nb_vertices :: "(string, py_value) dict \<Rightarrow> diagnostics \<Rightarrow> py_error + diagnostics" where
  "check_nb_vertices info_dict st =
     (case dict_get info_dict ''nb_vertices'' of
        None \<Rightarrow> Inr st
      | Some v \<Rightarrow>
          (case py_less_zero v of
             Inl e \<Rightarrow> Inl e
           | Inr neg \<Rightarrow> Inr (if neg then add_error NegativeVertexCount None st else st)))"

definition parse_info_block ::
  "bool \<Rightarrow> bool \<Rightarrow> (string, py_value) dict \<Rightarrow> diagnostics \<Rightarrow> (py_error + InfoBlock) \<times> diagnostics" where
  "parse_info_block strict_mode info_found info_dict st =
     (if \<not> info_found then (Inl MissingRequiredSectionError, st)
      else
        (let missing_fields = filter (\<lambda>field. field \<notin> set (dict_keys info_dict)) required_fields
         in if missing_fields \<noteq> [] \<and> strict_mode then (Inl MissingRequiredSectionError, st)
            else
              (let st1 = (if missing_fields \<noteq> []
                          then add_warning (MissingInfoFields missing_fields) None st else st);
                   info_dict1 = (if missing_fields \<noteq> []
                                 then fill_defaults missing_fields info_dict else info_dict)
               in case check_nb_vertices info_dict1 st1 of
                    Inl e \<Rightarrow> (Inl e, st1)
                  | Inr st2 \<Rightarrow> build_info info_dict1 (check_dimension info_dict1 st2))))"

subsection \<open>\<^verbatim>\<open>compute_statistics\<close>\<close>

text \<open>
  The ratio fields are Python floats. \<^verbatim>\<open>a / b\<close> on two integers raises
  \<^verbatim>\<open>ZeroDivisionError\<close> for \<open>b = 0\<close> and \<^verbatim>\<open>OverflowError\<close> when the correctly rounded
  quotient is outside the range of a double: the largest double is \<open>2^1024 - 2^971\<close>, and a
  quotient of magnitude \<open>2^1024 - 2^970\<close> or more rounds past it. Otherwise the result is a
  float; here it is the exact quotient, so the rounding of the value itself is not modelled.
\<close>

record MeshStatistics =
  euler_characteristic :: int
  edges_per_vertex :: real
  faces_per_vertex :: real
  elements_per_vertex :: real
  faces_per_edge :: real
  elements_per_face :: real
  boundary_edges :: int
  interior_faces :: int
  interface_faces :: int
  exterior_faces :: int

definition float_overflow_bound :: int where
  "float_overflow_bound = 2 ^ 1024 - 2 ^ 970"

definition within_float_range :: "int \<Rightarrow> int \<Rightarrow> bool" where
  "within_float_range a b = (\<bar>a\<bar> < float_overflow_bound * \<bar>b\<bar>)"

definition true_div :: "int \<Rightarrow> int \<Rightarrow> py_error + real" where
  "true_div a b =
     (if b = 0 then Inl ZeroDivisionError
      else if \<not> within_float_range a b then Inl OverflowError
      else Inr (real_of_int a / real_of_int b))"

text \<open>\<^verbatim>\<open>self.locations_chars.get(c, 0)\<close>\<close>

definition get_or_zero :: "(char, int) dict \<Rightarrow> char \<Rightarrow> int" where
  "get_or_zero d c = (case dict_get d c of None \<Rightarrow> 0 | Some n \<Rightarrow> n)"

text \<open>
  The counts enter integer arithmetic; a string or a list among them raises
  \<^verbatim>\<open>TypeError\<close> at the first expression, \<^verbatim>\<open>V - E + F - C\<close>.
\<close>

fun int_counts :: "InfoBlock \<Rightarrow> py_error + (int \<times> int \<times> int \<times> int)" where
  "int_counts info =
     (case (nb_vertices info, nb_edges info, nb_faces info, nb_elements info) of
        (IntV V, IntV E, IntV F, IntV C) \<Rightarrow> Inr (V, E, F, C)
      | _ \<Rightarrow> Inl TypeError)"

definition compute_statistics :: "InfoBlock option \<Rightarrow> (char, int) dict \<Rightarrow> py_error + MeshStatistics" where
  "compute_statistics info_opt locations_chars =
     (case info_opt of
        None \<Rightarrow> Inl ValueError
      | Some info \<Rightarrow>
         (case int_counts info of
            Inl e \<Rightarrow> Inl e
          | Inr (V, E, F, C) \<Rightarrow>
             (let chi = V - E + F - C in
              case true_div (2 * E) V of Inl e \<Rightarrow> Inl e | Inr epv \<Rightarrow>
              case true_div F V of Inl e \<Rightarrow> Inl e | Inr fpv \<Rightarrow>
              case true_div (4 * C) V of Inl e \<Rightarrow> Inl e | Inr cpv \<Rightarrow>
              case true_div F E of Inl e \<Rightarrow> Inl e | Inr fpe \<Rightarrow>
              case true_div C F of Inl e \<Rightarrow> Inl e | Inr cpf \<Rightarrow>
                (let face_edge_incidences = 3 * F;
                     edge_face_incidences = 2 * E
                 in Inr \<lparr>euler_characteristic = chi,
                          edges_per_vertex = epv,
                          faces_per_vertex = fpv,
                          elements_per_vertex = cpv,
                          faces_per_edge = fpe,
                          elements_per_face = cpf,
                          boundary_edges = face_edge_incidences - edge_face_incidences,
                          interior_faces = get_or_zero locations_chars CHR ''i'',
                          interface_faces = get_or_zero locations_chars CHR ''f'',
                          exterior_faces = get_or_zero locations_chars CHR ''e''\<rparr>))))"

subsection \<open>\<^verbatim>\<open>validate_consistency\<close>\<close>

record RegionInfo =
  name :: string
  material :: string
  element_count :: int
  fraction :: real

record consistency =
  regions_sum_correct :: bool
  all_elements_type_5 :: bool
  all_faces_type_3 :: bool
  locations_count_correct :: bool
  regions_count_correct :: bool

text \<open>\<^verbatim>\<open>n == self.info.field\<close> for an integer \<open>n\<close>: false against a string or a list.\<close>

definition int_eq_value :: "int \<Rightarrow> py_value \<Rightarrow> bool" where
  "int_eq_value n v = (v = IntV n)"

text \<open>
  \<^verbatim>\<open>len(types) == 1 and t in types and types[t] == declared\<close>, for the element types with
  \<open>t = 5\<close> and for the face types with \<open>t = 3\<close>.
\<close>

definition single_type :: "(int, int) dict \<Rightarrow> int \<Rightarrow> py_value \<Rightarrow> bool" where
  "single_type types t declared =
     (length types = 1 \<and>
      (case dict_get types t of None \<Rightarrow> False | Some n \<Rightarrow> int_eq_value n declared))"

definition validate_consistency ::
  "InfoBlock option \<Rightarrow> (string, RegionInfo) dict \<Rightarrow> (int, int) dict \<Rightarrow> (int, int) dict \<Rightarrow>
   (char, int) dict \<Rightarrow> py_error + consistency" where
  "validate_consistency info_opt regions_dict element_types face_types locations_chars =
     (case info_opt of
        None \<Rightarrow> Inl ValueError
      | Some info \<Rightarrow>
         (let total_region_elements = sum_list (map element_count (dict_values regions_dict));
              total_locations = sum_list (dict_values locations_chars)
          in Inr \<lparr>regions_sum_correct = int_eq_value total_region_elements (nb_elements info),
                   all_elements_type_5 = single_type element_types 5 (nb_elements info),
                   all_faces_type_3 = single_type face_types 3 (nb_faces info),
                   locations_count_correct = int_eq_value total_locations (nb_faces info),
                   regions_count_correct =
                     int_eq_value (int (length regions_dict)) (nb_regions info)\<rparr>))"

text \<open>
  Following the specification's words: the sorted union of all regions' element-index lists
  equals \<^verbatim>\<open>range(0, declared_element_count)\<close> with no duplicates.
\<close>

definition spec_region_coverage :: "(string, int list) dict \<Rightarrow> int \<Rightarrow> bool" where
  "spec_region_coverage region_elements declared_element_count =
     (sort (concat (dict_values region_elements)) = [0 .. declared_element_count - 1])"

subsection \<open>\<^verbatim>\<open>parse_all\<close>\<close>

text \<open>
  The five section parsers called by \<^verbatim>\<open>parse_all\<close> read the file. Each is given here by
  its name and its effect: the exception it raises, if any, and the diagnostics it leaves.
  \<^verbatim>\<open>locations_chars\<close> is what \<^verbatim>\<open>parse_locations\<close> stored.
\<close>

type_synonym section_parser = "string \<times> (diagnostics \<Rightarrow> py_error option \<times> diagnostics)"

fun run_sections :: "bool \<Rightarrow> section_parser list \<Rightarrow> diagnostics \<Rightarrow> py_error option \<times> diagnostics" where
  "run_sections strict_mode [] st = (None, st)"
| "run_sections strict_mode ((section_name, parse_func) # rest) st =
     (case parse_func st of
        (None, st1) \<Rightarrow> run_sections strict_mode rest st1
      | (Some e, st1) \<Rightarrow>
          if strict_mode then (Some e, st1)
          else run_sections strict_mode rest
                 (add_error (FailedToParseSection section_name e) None st1))"

text \<open>
  The outer handlers: \<^verbatim>\<open>CorruptedFileError\<close> and \<^verbatim>\<open>MissingRequiredSectionError\<close> are
  raised again; any other exception is recorded and, outside strict mode, turned into the
  result \<^verbatim>\<open>(None, None)\<close>.
\<close>

definition outer_handler ::
  "bool \<Rightarrow> py_error \<Rightarrow> diagnostics \<Rightarrow>
   (py_error + (InfoBlock option \<times> MeshStatistics option)) \<times> diagnostics" where
  "outer_handler strict_mode e st =
     (if e = CorruptedFileError \<or> e = MissingRequiredSectionError then (Inl e, st)
      else
        (let st1 = add_error (UnexpectedErrorDuringParsing e) None st
         in if strict_mode then (Inl e, st1) else (Inr (None, None), st1)))"

definition parse_all ::
  "bool \<Rightarrow> bool \<Rightarrow> (string, py_value) dict \<Rightarrow> section_parser list \<Rightarrow> (char, int) dict \<Rightarrow> diagnostics \<Rightarrow>
   (py_error + (InfoBlock option \<times> MeshStatistics option)) \<times> diagnostics" where
  "parse_all strict_mode info_found info_dict sections locations_chars st =
     (case parse_info_block strict_mode info_found info_dict st of
        (Inl e, st1) \<Rightarrow> outer_handler strict_mode e st1
      | (Inr info, st1) \<Rightarrow>
          (case run_sections strict_mode sections st1 of
             (Some e, st2) \<Rightarrow> outer_handler strict_mode e st2
           | (None, st2) \<Rightarrow>
               (case compute_statistics (Some info) locations_chars of
                  Inr stats \<Rightarrow> (Inr (Some info, Some stats), st2)
                | Inl e \<Rightarrow>
                    if strict_mode then outer_handler strict_mode e st2
                    else (Inr (Some info, None),
                          add_error (FailedToComputeStatistics e) None st2))))"

subsection \<open>Fixtures\<close>

text \<open>The Info block that the defaulting produces when only the two lists are present.\<close>

definition defaulted_info :: InfoBlock where
  "defaulted_info = \<lparr>version = StrV ''1.0'', type = StrV ''grid'', dimension = IntV 3,
     nb_vertices = IntV 0, nb_edges = IntV 0, nb_faces = IntV 0, nb_elements = IntV 0,
     nb_regions = IntV 0, regions = ListV [], materials = ListV []\<rparr>"

text \<open>
  An Info block that declares no vertex, and one that declares no edge and \<open>10^400\<close> faces.
  Both are blocks the Info parser accepts: it reads a count with \<^verbatim>\<open>int\<close>, which has no
  upper limit.
\<close>

definition zero_vertex_info :: InfoBlock where
  "zero_vertex_info = \<lparr>version = StrV ''1.0'', type = StrV ''grid'', dimension = IntV 3,
     nb_vertices = IntV 0, nb_edges = IntV 9, nb_faces = IntV 7, nb_elements = IntV 2,
     nb_regions = IntV 1, regions = ListV [''R''], materials = ListV [''Silicon'']\<rparr>"

definition huge_face_info :: InfoBlock where
  "huge_face_info = \<lparr>version = StrV ''1.0'', type = StrV ''grid'', dimension = IntV 3,
     nb_vertices = IntV 1, nb_edges = IntV 0, nb_faces = IntV (10 ^ 400), nb_elements = IntV 1,
     nb_regions = IntV 1, regions = ListV [''R''], materials = ListV [''Silicon'']\<rparr>"

text \<open>
  The Info dictionary of a single tetrahedron (4 vertices, 6 edges, 4 faces, 1 element, 1
  region) that declares the dimension 4, and the \<^verbatim>\<open>InfoBlock\<close> built from it.
\<close>

definition tetra_dim4_dict :: "(string, py_value) dict" where
  "tetra_dim4_dict = [(''version'', StrV ''1.0''), (''type'', StrV ''grid''),
     (''dimension'', IntV 4), (''nb_vertices'', IntV 4), (''nb_edges'', IntV 6),
     (''nb_faces'', IntV 4), (''nb_elements'', IntV 1), (''nb_regions'', IntV 1),
     (''regions'', ListV [''R1'']), (''materials'', ListV [''Silicon''])]"

definition tetra_dim4_info :: InfoBlock where
  "tetra_dim4_info = \<lparr>version = StrV ''1.0'', type = StrV ''grid'', dimension = IntV 4,
     nb_vertices = IntV 4, nb_edges = IntV 6, nb_faces = IntV 4, nb_elements = IntV 1,
     nb_regions = IntV 1, regions = ListV [''R1''], materials = ListV [''Silicon'']\<rparr>"

text \<open>A section parser that finds its section in order: no exception, no diagnostic.\<close>

definition quiet_section :: "string \<Rightarrow> section_parser" where
  "quiet_section section_name = (section_name, \<lambda>st. (None, st))"

definition quiet_sections :: "section_parser list" where
  "quiet_sections = map quiet_section
     [''Locations'', ''Elements'', ''Faces'', ''Regions'', ''CoordSystem'']"

text \<open>
  Two regions that both list element 0 and declare one element each, in a mesh declaring two
  elements.
\<close>

definition overlap_info :: InfoBlock where
  "overlap_info = \<lparr>version = StrV ''1.0'', type = StrV ''grid'', dimension = IntV 3,
     nb_vertices = IntV 5, nb_edges = IntV 9, nb_faces = IntV 7, nb_elements = IntV 2,
     nb_regions = IntV 2, regions = ListV [''A'', ''B''],
     materials = ListV [''Silicon'', ''Oxide'']\<rparr>"

definition overlap_regions :: "(string, RegionInfo) dict" where
  "overlap_regions =
     [(''A'', \<lparr>name = ''A'', material = ''Silicon'', element_count = 1, fraction = 1 / 2\<rparr>),
      (''B'', \<lparr>name = ''B'', material = ''Oxide'', element_count = 1, fraction = 1 / 2\<rparr>)]"

definition overlap_region_elements :: "(string, int list) dict" where
  "overlap_region_elements = [(''A'', [0]), (''B'', [0])]"

subsection \<open>\<^verbatim>\<open>export_to_nas\<close>\<close>

text \<open>
  The bulk-data cards written to the NAS file. Comment lines, the header and the footer carry
  no ids and are left out. Coordinates and material constants are floating-point numbers that
  are only copied, so their type is a parameter.
\<close>

datatype 'f card =
    GRID int 'f 'f 'f
  | MAT1 int 'f 'f 'f
  | PSOLID int int string
  | CTETRA int int int int int int
  | CTRIA3 int int int int int

text \<open>The results of the \<^verbatim>\<open>parse_*\<close> calls of step 2 and of \<^verbatim>\<open>parse_locations_full\<close>.\<close>

record 'f parsed_mesh =
  mesh_vertices :: "('f \<times> 'f \<times> 'f) list"
  mesh_edges :: "(int \<times> int) list"
  mesh_faces_as_edges :: "(int \<times> int \<times> int) list"
  mesh_elements_as_faces :: "(int \<times> int \<times> int \<times> int) list"
  mesh_regions :: "(string, RegionInfo) dict"
  mesh_region_elements :: "(string, int list) dict"
  mesh_locations :: "char list"

text \<open>Step 4: \<^verbatim>\<open>element_to_region[elem_idx] = region_name\<close>, the last write wins.\<close>

fun assign_elements :: "string \<Rightarrow> int list \<Rightarrow> (int \<rightharpoonup> string) \<Rightarrow> (int \<rightharpoonup> string)" where
  "assign_elements region_name [] element_to_region = element_to_region"
| "assign_elements region_name (elem_idx # rest) element_to_region =
     assign_elements region_name rest (element_to_region(elem_idx \<mapsto> region_name))"

fun build_element_to_region :: "(string, int list) dict \<Rightarrow> (int \<rightharpoonup> string) \<Rightarrow> (int \<rightharpoonup> string)" where
  "build_element_to_region [] element_to_region = element_to_region"
| "build_element_to_region ((region_name, elem_indices) # rest) element_to_region =
     build_element_to_region rest (assign_elements region_name elem_indices element_to_region)"

text \<open>Material ids in first-encounter order over \<^verbatim>\<open>self.regions\<close>.\<close>

fun assign_mids :: "(string, RegionInfo) dict \<Rightarrow> (string, int) dict \<Rightarrow> int \<Rightarrow> (string, int) dict" where
  "assign_mids [] material_to_mid mid_counter = material_to_mid"
| "assign_mids ((region_name, region_info) # rest) material_to_mid mid_counter =
     (if material region_info \<notin> set (dict_keys material_to_mid)
      then assign_mids rest (dict_set (material region_info) mid_counter material_to_mid)
             (mid_counter + 1)
      else assign_mids rest material_to_mid mid_counter)"

text \<open>Property ids over \<^verbatim>\<open>sorted(region_elements.keys())\<close>.\<close>

fun assign_pids :: "string list \<Rightarrow> (string, int) dict \<Rightarrow> int \<Rightarrow> (string, int) dict" where
  "assign_pids [] region_to_pid pid_counter = region_to_pid"
| "assign_pids (region_name # rest) region_to_pid pid_counter =
     assign_pids rest (dict_set region_name pid_counter region_to_pid) (pid_counter + 1)"

text \<open>Step 5: the indices of the faces whose location is \<^verbatim>\<open>e\<close>.\<close>

fun exterior_indices :: "nat \<Rightarrow> char list \<Rightarrow> nat list" where
  "exterior_indices i [] = []"
| "exterior_indices i (loc # rest) =
     (if loc = CHR ''e'' then i # exterior_indices (Suc i) rest
      else exterior_indices (Suc i) rest)"

definition boundary_faces_of :: "bool \<Rightarrow> char list \<Rightarrow> int list list \<Rightarrow> nat list" where
  "boundary_faces_of include_surfaces locs faces_as_vertices =
     (if include_surfaces \<and> length locs = length faces_as_vertices
      then exterior_indices 0 locs else [])"

text \<open>Step 6, one function for each block of cards.\<close>

fun grid_cards :: "nat \<Rightarrow> ('f \<times> 'f \<times> 'f) list \<Rightarrow> 'f card list" where
  "grid_cards i [] = []"
| "grid_cards i ((x, y, z) # rest) = GRID (int i + 1) x y z # grid_cards (Suc i) rest"

definition mat1_cards :: "(string, int) dict \<Rightarrow> 'f \<Rightarrow> 'f \<Rightarrow> 'f \<Rightarrow> 'f card list" where
  "mat1_cards material_to_mid E nu rho =
     map (\<lambda>(material, mid). MAT1 mid E nu rho) (sort_key snd material_to_mid)"

text \<open>
  A region without a record in \<^verbatim>\<open>self.regions\<close> gets no PSOLID card. A material missing
  from \<^verbatim>\<open>material_to_mid\<close> would raise \<^verbatim>\<open>KeyError\<close>, which the enclosing handler turns into
  \<^verbatim>\<open>RuntimeError\<close>.
\<close>

fun psolid_cards ::
  "(string, RegionInfo) dict \<Rightarrow> (string, int) dict \<Rightarrow> (string, int) dict \<Rightarrow> string list \<Rightarrow>
   py_error + 'f card list" where
  "psolid_cards regs material_to_mid region_to_pid [] = Inr []"
| "psolid_cards regs material_to_mid region_to_pid (region_name # rest) =
     (case dict_get region_to_pid region_name of
        None \<Rightarrow> Inl RuntimeError
      | Some pid \<Rightarrow>
         (case dict_get regs region_name of
            None \<Rightarrow> psolid_cards regs material_to_mid region_to_pid rest
          | Some region_info \<Rightarrow>
             (case dict_get material_to_mid (material region_info) of
                None \<Rightarrow> Inl RuntimeError
              | Some mid \<Rightarrow>
                 (case psolid_cards regs material_to_mid region_to_pid rest of
                    Inl e \<Rightarrow> Inl e
                  | Inr cards \<Rightarrow> Inr (PSOLID pid mid region_name # cards)))))"

text \<open>
  The CTETRA loop. Unpacking \<^verbatim>\<open>n1, n2, n3, n4 = [v + 1 for v in elem_verts]\<close> raises
  \<^verbatim>\<open>ValueError\<close> unless there are four entries; the handler turns it into
  \<^verbatim>\<open>RuntimeError\<close>. The result carries the final \<^verbatim>\<open>eid_counter\<close>.
\<close>

fun ctetra_cards ::
  "(int \<rightharpoonup> string) \<Rightarrow> (string, int) dict \<Rightarrow> int \<Rightarrow> int \<Rightarrow> int list list \<Rightarrow>
   py_error + ('f card list \<times> int)" where
  "ctetra_cards element_to_region region_to_pid elem_idx eid_counter [] = Inr ([], eid_counter)"
| "ctetra_cards element_to_region region_to_pid elem_idx eid_counter (elem_verts # rest) =
     (case element_to_region elem_idx of
        None \<Rightarrow> ctetra_cards element_to_region region_to_pid (elem_idx + 1) eid_counter rest
      | Some region_name \<Rightarrow>
         (case (if region_name \<noteq> [] then dict_get region_to_pid region_name else None) of
            None \<Rightarrow> ctetra_cards element_to_region region_to_pid (elem_idx + 1) eid_counter rest
          | Some pid \<Rightarrow>
             (case map (\<lambda>v. v + 1) elem_verts of
                [n1, n2, n3, n4] \<Rightarrow>
                  (case ctetra_cards element_to_region region_to_pid (elem_idx + 1)
                          (eid_counter + 1) rest of
                     Inl e \<Rightarrow> Inl e
                   | Inr (cards, final_eid) \<Rightarrow>
                       Inr (CTETRA eid_counter pid n1 n2 n3 n4 # cards, final_eid))
              | _ \<Rightarrow> Inl RuntimeError)))"

text \<open>The CTRIA3 loop continues with the same \<^verbatim>\<open>eid_counter\<close>; the property id is 1.\<close>

fun ctria3_cards :: "int list list \<Rightarrow> int \<Rightarrow> nat list \<Rightarrow> py_error + 'f card list" where
  "ctria3_cards faces_as_vertices eid_counter [] = Inr []"
| "ctria3_cards faces_as_vertices eid_counter (face_idx # rest) =
     (case list_item faces_as_vertices (int face_idx) of
        Inl e \<Rightarrow> Inl RuntimeError
      | Inr face_verts \<Rightarrow>
         (case map (\<lambda>v. v + 1) face_verts of
            [n1, n2, n3] \<Rightarrow>
              (case ctria3_cards faces_as_vertices (eid_counter + 1) rest of
                 Inl e \<Rightarrow> Inl e
               | Inr cards \<Rightarrow> Inr (CTRIA3 eid_counter 1 n1 n2 n3 # cards))
          | _ \<Rightarrow> Inl RuntimeError))"

definition write_cards ::
  "'f parsed_mesh \<Rightarrow> bool \<Rightarrow> 'f \<Rightarrow> 'f \<Rightarrow> 'f \<Rightarrow> int list list \<Rightarrow> int list list \<Rightarrow>
   py_error + 'f card list" where
  "write_cards mesh include_surfaces E nu rho faces_as_vertices elements_as_vertices =
     (let element_to_region = build_element_to_region (mesh_region_elements mesh) Map.empty;
          material_to_mid = assign_mids (mesh_regions mesh) [] 1;
          region_to_pid = assign_pids (sort (dict_keys (mesh_region_elements mesh))) [] 1;
          boundary_faces = boundary_faces_of include_surfaces (mesh_locations mesh) faces_as_vertices
      in case psolid_cards (mesh_regions mesh) material_to_mid region_to_pid
                (map fst (sort_key snd region_to_pid)) of
           Inl e \<Rightarrow> Inl e
         | Inr psolids \<Rightarrow>
            (case ctetra_cards element_to_region region_to_pid 0 1 elements_as_vertices of
               Inl e \<Rightarrow> Inl e
             | Inr (ctetras, eid_counter) \<Rightarrow>
                (case ctria3_cards faces_as_vertices eid_counter boundary_faces of
                   Inl e \<Rightarrow> Inl e
                 | Inr ctria3s \<Rightarrow>
                     Inr (grid_cards 0 (mesh_vertices mesh) @ mat1_cards material_to_mid E nu rho @
                          psolids @ ctetras @ ctria3s))))"

text \<open>
  \<^verbatim>\<open>export_to_nas\<close> from step 2 on: the emptiness checks, the two reconstruction loops
  and the cards.
\<close>

definition export_to_nas ::
  "(int set \<Rightarrow> int list) \<Rightarrow> 'f parsed_mesh \<Rightarrow> bool \<Rightarrow> 'f \<Rightarrow> 'f \<Rightarrow> 'f \<Rightarrow> diagnostics \<Rightarrow>
   (py_error + 'f card list) \<times> diagnostics" where
  "export_to_nas list_of mesh include_surfaces E nu rho st =
     (if mesh_vertices mesh = [] \<or> mesh_edges mesh = [] \<or> mesh_faces_as_edges mesh = [] \<or>
         mesh_elements_as_faces mesh = []
      then (Inl ValueError, st)
      else
        (case reconstruct_faces (mesh_faces_as_edges mesh) (mesh_edges mesh) [] st of
           (faces_as_vertices, st1) \<Rightarrow>
             (case reconstruct_elements list_of (mesh_elements_as_faces mesh) faces_as_vertices [] st1 of
                (elements_as_vertices, st2) \<Rightarrow>
                  (write_cards mesh include_surfaces E nu rho faces_as_vertices
                     elements_as_vertices, st2))))"

text \<open>The ids of each kind of card, in file order.\<close>

fun grid_id :: "'f card \<Rightarrow> int option" where
  "grid_id (GRID node_id x y z) = Some node_id"
| "grid_id c = None"

fun mat1_id :: "'f card \<Rightarrow> int option" where
  "mat1_id (MAT1 mid E nu rho) = Some mid"
| "mat1_id c = None"

fun psolid_id :: "'f card \<Rightarrow> int option" where
  "psolid_id (PSOLID pid mid region_name) = Some pid"
| "psolid_id c = None"

fun ctetra_id :: "'f card \<Rightarrow> int option" where
  "ctetra_id (CTETRA eid pid n1 n2 n3 n4) = Some eid"
| "ctetra_id c = None"

fun ctria3_id :: "'f card \<Rightarrow> int option" where
  "ctria3_id (CTRIA3 eid pid n1 n2 n3) = Some eid"
| "ctria3_id c = None"

definition ids_of :: "('f card \<Rightarrow> int option) \<Rightarrow> 'f card list \<Rightarrow> int list" where
  "ids_of kind cards = List.map_filter kind cards"

text \<open>
  A single tetrahedron: 4 vertices, the 6 edges of its skeleton, 4 faces with signed edge
  references, 1 element, 1 region of material Silicon holding element 0, all faces exterior.
  The coordinates are integers here.
\<close>

definition tetra_mesh :: "int parsed_mesh" where
  "tetra_mesh = \<lparr>mesh_vertices = [(0, 0, 0), (1, 0, 0), (0, 1, 0), (0, 0, 1)],
     mesh_edges = [(0, 1), (1, 2), (2, 0), (0, 3), (1, 3), (2, 3)],
     mesh_faces_as_edges = [(0, 1, 2), (0, 4, - 4), (1, 5, - 5), (2, 3, - 6)],
     mesh_elements_as_faces = [(0, 1, 2, 3)],
     mesh_regions = [(''R1'', \<lparr>name = ''R1'', material = ''Silicon'', element_count = 1,
                               fraction = 1\<rparr>)],
     mesh_region_elements = [(''R1'', [0])],
     mesh_locations = ''eeee''\<rparr>"

definition tetra_cards :: "int card list" where
  "tetra_cards = [GRID 1 0 0 0, GRID 2 1 0 0, GRID 3 0 1 0, GRID 4 0 0 1,
     MAT1 1 210 3 0, PSOLID 1 1 ''R1'', CTETRA 1 1 1 2 3 4,
     CTRIA3 2 1 1 2 3, CTRIA3 3 1 1 2 4, CTRIA3 4 1 2 3 4, CTRIA3 5 1 3 1 4]"

text \<open>
  The same tetrahedron with a second region \<^verbatim>\<open>A0\<close> that has an element list but no
  material, so that \<^verbatim>\<open>parse_regions\<close> stored no record for it.
\<close>

definition tetra_mesh_two_regions :: "int parsed_mesh" where
  "tetra_mesh_two_regions = tetra_mesh\<lparr>mesh_region_elements := [(''R1'', [0]), (''A0'', [])]\<rparr>"

subsection \<open>Strings\<close>

text \<open>
  The Python string operations the section parsers use, on ASCII text.
  \<^verbatim>\<open>str.strip()\<close> and \<^verbatim>\<open>str.split()\<close> treat the characters 9 to 13, 28 to 31 and the
  space as whitespace.
\<close>

definition is_space :: "char \<Rightarrow> bool" where
  "is_space c = (c \<in> set [CHR 0x09, CHR 0x0A, CHR 0x0B, CHR 0x0C, CHR 0x0D,
                           CHR 0x1C, CHR 0x1D, CHR 0x1E, CHR 0x1F, CHR 0x20])"

definition strip :: "string \<Rightarrow> string" where
  "strip s = rev (dropWhile is_space (rev (dropWhile is_space s)))"

fun split_from :: "string \<Rightarrow> string \<Rightarrow> string list" where
  "split_from [] word = (if word = [] then [] else [word])"
| "split_from (c # cs) word =
     (if is_space c then (if word = [] then split_from cs [] else word # split_from cs [])
      else split_from cs (word @ [c]))"

definition split :: "string \<Rightarrow> string list" where
  "split s = split_from s []"

fun startswith :: "string \<Rightarrow> string \<Rightarrow> bool" where
  "startswith s [] = True"
| "startswith [] (p # ps) = False"
| "startswith (c # cs) (p # ps) = (c = p \<and> startswith cs ps)"

text \<open>\<^verbatim>\<open>sub in s\<close>\<close>

fun contains :: "string \<Rightarrow> string \<Rightarrow> bool" where
  "contains [] sub = (sub = [])"
| "contains (c # cs) sub = (startswith (c # cs) sub \<or> contains cs sub)"

text \<open>\<^verbatim>\<open>s.find(c)\<close> for a character that occurs in \<open>s\<close>, and the slice \<^verbatim>\<open>s[a:b]\<close>.\<close>

definition find_char :: "string \<Rightarrow> char \<Rightarrow> nat" where
  "find_char s c = length (takeWhile (\<lambda>d. d \<noteq> c) s)"

definition slice :: "string \<Rightarrow> nat \<Rightarrow> nat \<Rightarrow> string" where
  "slice s a b = take (b - a) (drop a s)"

text \<open>
  \<^verbatim>\<open>int(token)\<close> on a token without whitespace: an optional sign, then decimal digits
  with single underscores allowed between digits. \<open>None\<close> stands for \<^verbatim>\<open>ValueError\<close>.
\<close>

definition is_digit :: "char \<Rightarrow> bool" where
  "is_digit c = (c \<in> set ''0123456789'')"

definition digit_value :: "char \<Rightarrow> int" where
  "digit_value c = int (length (takeWhile (\<lambda>d. d \<noteq> c) ''0123456789''))"

fun digits_ok :: "string \<Rightarrow> bool" where
  "digits_ok [] = False"
| "digits_ok [c] = is_digit c"
| "digits_ok (c # d # rest) =
     (is_digit c \<and> (if d = CHR ''_'' then digits_ok rest else digits_ok (d # rest)))"

definition digits_value :: "string \<Rightarrow> int" where
  "digits_value s = foldl (\<lambda>acc c. 10 * acc + digit_value c) 0 (filter is_digit s)"

definition py_int :: "string \<Rightarrow> int option" where
  "py_int s =
     (case s of
        [] \<Rightarrow> None
      | c # cs \<Rightarrow>
          if c = CHR ''-'' then (if digits_ok cs then Some (- digits_value cs) else None)
          else if c = CHR ''+'' then (if digits_ok cs then Some (digits_value cs) else None)
          else if digits_ok s then Some (digits_value s) else None)"

subsection \<open>\<^verbatim>\<open>parse_faces_full\<close>\<close>

text \<open>
  The tokens of a face line: the text between the first \<^verbatim>\<open>(\<close> and the first \<^verbatim>\<open>)\<close> when
  both occur, the whole line otherwise.
\<close>

definition face_parts :: "string \<Rightarrow> string list" where
  "face_parts line_stripped =
     (if CHR ''('' \<in> set line_stripped \<and> CHR '')'' \<in> set line_stripped
      then split (slice line_stripped (find_char line_stripped CHR ''('' + 1)
                                      (find_char line_stripped CHR '')''))
      else split line_stripped)"

text \<open>
  The body of the inner \<^verbatim>\<open>try\<close>: \<open>Inl token\<close> when \<^verbatim>\<open>int(token)\<close> raises
  \<^verbatim>\<open>ValueError\<close>, \<open>Inr None\<close> when the guard \<^verbatim>\<open>len(parts) >= 4 and parts[0] == '3'\<close>
  fails, \<open>Inr (Some face)\<close> for a decoded face.
\<close>

definition decode_face :: "string \<Rightarrow> string + (int \<times> int \<times> int) option" where
  "decode_face line_stripped =
     (let parts = face_parts line_stripped in
      if length parts \<ge> 4 \<and> parts ! 0 = ''3'' then
        (case py_int (parts ! 1) of
           None \<Rightarrow> Inl (parts ! 1)
         | Some e1 \<Rightarrow>
            (case py_int (parts ! 2) of
               None \<Rightarrow> Inl (parts ! 2)
             | Some e2 \<Rightarrow>
                (case py_int (parts ! 3) of
                   None \<Rightarrow> Inl (parts ! 3)
                 | Some e3 \<Rightarrow> Inr (Some (e1, e2, e3)))))
      else Inr None)"

text \<open>
  The loop over the lines of the file, with the variables \<^verbatim>\<open>in_faces\<close>,
  \<^verbatim>\<open>faces_found\<close>, \<^verbatim>\<open>line_num\<close> and \<^verbatim>\<open>faces\<close>; \<^verbatim>\<open>break\<close> ends the recursion.
\<close>

fun faces_loop ::
  "string list \<Rightarrow> bool \<Rightarrow> bool \<Rightarrow> nat \<Rightarrow> (int \<times> int \<times> int) list \<Rightarrow> diagnostics \<Rightarrow>
   bool \<times> (int \<times> int \<times> int) list \<times> diagnostics" where
  "faces_loop [] in_faces faces_found line_num faces st = (faces_found, faces, st)"
| "faces_loop (line # rest) in_faces faces_found line_num faces st =
     (if contains (strip line) ''Faces ('' then
        faces_loop rest True True (line_num + 1) faces st
      else if in_faces \<and> strip line = ''}'' then (faces_found, faces, st)
      else if in_faces \<and> strip line \<noteq> [] \<and> \<not> startswith (strip line) ''}'' then
        (case decode_face (strip line) of
           Inr (Some face) \<Rightarrow>
             faces_loop rest in_faces faces_found (line_num + 1) (faces @ [face]) st
         | Inr None \<Rightarrow> faces_loop rest in_faces faces_found (line_num + 1) faces st
         | Inl token \<Rightarrow>
             faces_loop rest in_faces faces_found (line_num + 1) faces
               (add_warning (ErrorParsingFace (line_num + 1) token) None st))
      else faces_loop rest in_faces faces_found (line_num + 1) faces st)"

text \<open>
  \<^verbatim>\<open>parse_faces_full\<close> on the lines of the file. Every exception inside is caught by the
  function itself, so the result is the returned list and the diagnostics.
\<close>

definition parse_faces_full :: "string list \<Rightarrow> diagnostics \<Rightarrow> (int \<times> int \<times> int) list \<times> diagnostics" where
  "parse_faces_full file_lines st =
     (case faces_loop file_lines False False 0 [] st of
        (faces_found, faces, st1) \<Rightarrow>
          (faces, if \<not> faces_found then add_error NoFacesSectionFound None st1 else st1))"

text \<open>
  A Faces block declaring three faces whose second line has only two edge references, and the
  same block without that line.
\<close>

definition short_face_file :: "string list" where
  "short_face_file = [''Faces (3) {'', ''  3 0 1 2'', ''  3 0 4'', ''  3 1 5 -5'', ''}'']"

definition short_face_file_indexed :: "string list" where
  "short_face_file_indexed =
     [''Faces (3) {'', ''  0 (3 0 1 2)'', ''  1 (3 0 4)'', ''  2 (3 1 5 -5)'', ''}'']"

text \<open>
  Two diagnostics records with the same numbers of warnings and errors and the same status,
  and two loop results that agree except for the text of the diagnostics.
\<close>

definition same_counts :: "diagnostics \<Rightarrow> diagnostics \<Rightarrow> bool" where
  "same_counts st st' =
     (length (parse_warnings st) = length (parse_warnings st') \<and>
      length (parse_errors st) = length (parse_errors st') \<and>
      parse_status st = parse_status st')"

definition same_result ::
  "bool \<times> (int \<times> int \<times> int) list \<times> diagnostics \<Rightarrow>
   bool \<times> (int \<times> int \<times> int) list \<times> diagnostics \<Rightarrow> bool" where
  "same_result r r' =
     (fst r = fst r' \<and> fst (snd r) = fst (snd r') \<and> same_counts (snd (snd r)) (snd (snd r')))"

subsection \<open>\<^verbatim>\<open>parse_regions\<close> and \<^verbatim>\<open>parse_region_elements\<close>\<close>

text \<open>
  The three regular expressions of the region parsers, on ASCII text.
  \<^verbatim>\<open>re.match(r'Region \( "([^"]+)" \)', s)\<close> matches at the start of the line; the name is
  the run of characters up to the next double quote.
\<close>

definition region_header_prefix :: string where
  "region_header_prefix = ''Region ( '' @ [CHR 0x22]"

definition region_header_suffix :: string where
  "region_header_suffix = [CHR 0x22] @ '' )''"

definition match_region_header :: "string \<Rightarrow> string option" where
  "match_region_header s =
     (if startswith s region_header_prefix then
        (let after = drop (length region_header_prefix) s;
             region_name = takeWhile (\<lambda>c. c \<noteq> CHR 0x22) after
         in if region_name \<noteq> [] \<and> startswith (drop (length region_name) after) region_header_suffix
            then Some region_name else None)
      else None)"

text \<open>
  \<^verbatim>\<open>re.search(r'material\s*=\s*(\w+)', s)\<close>: the leftmost position where the pattern
  matches; the group is the longest run of letters, digits and underscores.
\<close>

definition is_word_char :: "char \<Rightarrow> bool" where
  "is_word_char c =
     (c \<in> set ''abcdefghijklmnopqrstuvwxyzABCDEFGHIJKLMNOPQRSTUVWXYZ0123456789_'')"

definition match_material_here :: "string \<Rightarrow> string option" where
  "match_material_here s =
     (if startswith s ''material'' then
        (case dropWhile is_space (drop 8 s) of
           [] \<Rightarrow> None
         | c # after_eq \<Rightarrow>
             if c = CHR ''='' then
               (let word = takeWhile is_word_char (dropWhile is_space after_eq)
                in if word \<noteq> [] then Some word else None)
             else None)
      else None)"

fun search_material :: "string \<Rightarrow> string option" where
  "search_material [] = None"
| "search_material (c # cs) =
     (case match_material_here (c # cs) of
        Some word \<Rightarrow> Some word
      | None \<Rightarrow> search_material cs)"

text \<open>\<^verbatim>\<open>re.search(r'Elements \((\d+)\)', s)\<close> and \<^verbatim>\<open>int\<close> of its group.\<close>

definition match_elements_count_here :: "string \<Rightarrow> int option" where
  "match_elements_count_here s =
     (if startswith s ''Elements ('' then
        (let after = drop 10 s; digits = takeWhile is_digit after
         in if digits \<noteq> [] \<and> startswith (drop (length digits) after) '')''
            then Some (digits_value digits) else None)
      else None)"

fun search_elements_count :: "string \<Rightarrow> int option" where
  "search_elements_count [] = None"
| "search_elements_count (c # cs) =
     (case match_elements_count_here (c # cs) of
        Some n \<Rightarrow> Some n
      | None \<Rightarrow> search_elements_count cs)"

text \<open>
  The dictionary \<^verbatim>\<open>current_region\<close> of \<^verbatim>\<open>parse_regions\<close> with its three keys; the
  variable itself may be \<^verbatim>\<open>None\<close>.
\<close>

record region_draft =
  draft_name :: string
  draft_material :: "string option"
  draft_element_count :: int

text \<open>
  \<^verbatim>\<open>element_count / self.info.nb_elements\<close>: \<^verbatim>\<open>ZeroDivisionError\<close> for a declared count
  of 0, \<^verbatim>\<open>TypeError\<close> for a count that is not a number.
\<close>

fun region_fraction :: "int \<Rightarrow> py_value \<Rightarrow> py_error + real" where
  "region_fraction n (IntV nb_total) = true_div n nb_total"
| "region_fraction n (StrV s) = Inl TypeError"
| "region_fraction n (ListV l) = Inl TypeError"

text \<open>
  The loop of \<^verbatim>\<open>parse_regions\<close>. Assigning into \<^verbatim>\<open>current_region\<close> while it is
  \<^verbatim>\<open>None\<close> would raise \<^verbatim>\<open>TypeError\<close>; the loop keeps \<^verbatim>\<open>in_region\<close> and
  \<^verbatim>\<open>current_region\<close> set together, so that branch is not reached.
\<close>

fun regions_loop ::
  "string list \<Rightarrow> py_value \<Rightarrow> bool \<Rightarrow> region_draft option \<Rightarrow> (string, RegionInfo) dict \<Rightarrow>
   py_error + (string, RegionInfo) dict" where
  "regions_loop [] nb_total in_region current_region regs = Inr regs"
| "regions_loop (line # rest) nb_total in_region current_region regs =
     (case match_region_header (strip line) of
        Some region_name \<Rightarrow>
          regions_loop rest nb_total True
            (Some \<lparr>draft_name = region_name, draft_material = None, draft_element_count = 0\<rparr>)
            regs
      | None \<Rightarrow>
          if in_region \<and> contains (strip line) ''material ='' then
            (case search_material (strip line) of
               None \<Rightarrow> regions_loop rest nb_total in_region current_region regs
             | Some word \<Rightarrow>
                (case current_region of
                   None \<Rightarrow> Inl TypeError
                 | Some draft \<Rightarrow>
                     regions_loop rest nb_total in_region
                       (Some (draft\<lparr>draft_material := Some word\<rparr>)) regs))
          else if in_region \<and> contains (strip line) ''Elements ('' then
            (case search_elements_count (strip line) of
               None \<Rightarrow> regions_loop rest nb_total in_region current_region regs
             | Some n \<Rightarrow>
                (case current_region of
                   None \<Rightarrow> Inl TypeError
                 | Some draft \<Rightarrow>
                     regions_loop rest nb_total in_region
                       (Some (draft\<lparr>draft_element_count := n\<rparr>)) regs))
          else
            (case (if in_region \<and> strip line = ''}'' then current_region else None) of
               None \<Rightarrow> regions_loop rest nb_total in_region current_region regs
             | Some draft \<Rightarrow>
                (case draft_material draft of
                   None \<Rightarrow> regions_loop rest nb_total in_region current_region regs
                 | Some mat \<Rightarrow>
                     if mat = [] then regions_loop rest nb_total in_region current_region regs
                     else
                       (case region_fraction (draft_element_count draft) nb_total of
                          Inl e \<Rightarrow> Inl e
                        | Inr region_frac \<Rightarrow>
                            regions_loop rest nb_total False None
                              (dict_set (draft_name draft)
                                 \<lparr>name = draft_name draft, material = mat,
                                  element_count = draft_element_count draft,
                                  fraction = region_frac\<rparr> regs)))))"

definition parse_regions :: "string list \<Rightarrow> InfoBlock \<Rightarrow> py_error + (string, RegionInfo) dict" where
  "parse_regions file_lines info = regions_loop file_lines (nb_elements info) False None []"

text \<open>\<^verbatim>\<open>part.isdigit()\<close>\<close>

definition isdigit :: "string \<Rightarrow> bool" where
  "isdigit s = (s \<noteq> [] \<and> (\<forall>c \<in> set s. is_digit c))"

text \<open>\<^verbatim>\<open>region_elements[current_region_name].append(elem_idx)\<close>\<close>

fun dict_append :: "'k \<Rightarrow> 'v \<Rightarrow> ('k, 'v list) dict \<Rightarrow> ('k, 'v list) dict" where
  "dict_append k v [] = []"
| "dict_append k v ((k', vs) # rest) =
     (if k' = k then (k', vs @ [v]) # rest else (k', vs) # dict_append k v rest)"

fun append_indices :: "string \<Rightarrow> string list \<Rightarrow> (string, int list) dict \<Rightarrow> (string, int list) dict" where
  "append_indices region_name [] region_elems = region_elems"
| "append_indices region_name (part # parts) region_elems =
     append_indices region_name parts
       (if isdigit part then dict_append region_name (digits_value part) region_elems
        else region_elems)"

text \<open>
  The loop of \<^verbatim>\<open>parse_region_elements\<close>. Its last three \<^verbatim>\<open>if\<close> statements are not
  alternatives: each is tried in turn on the same line. \<^verbatim>\<open>current_region_name\<close> is set
  whenever \<^verbatim>\<open>in_region\<close> holds.
\<close>

fun region_elements_loop ::
  "string list \<Rightarrow> bool \<Rightarrow> string option \<Rightarrow> bool \<Rightarrow> (string, int list) dict \<Rightarrow>
   (string, int list) dict" where
  "region_elements_loop [] in_region current_region_name in_region_elements region_elems =
     region_elems"
| "region_elements_loop (line # rest) in_region current_region_name in_region_elements
     region_elems =
     (case match_region_header (strip line) of
        Some region_name \<Rightarrow> region_elements_loop rest True (Some region_name) False region_elems
      | None \<Rightarrow>
          if in_region \<and> contains (strip line) ''Elements ('' then
            region_elements_loop rest in_region current_region_name True
              (case current_region_name of
                 None \<Rightarrow> region_elems
               | Some region_name \<Rightarrow> dict_set region_name [] region_elems)
          else
            (let region_elems1 =
                   (if in_region_elements \<and> strip line \<noteq> [] \<and> \<not> startswith (strip line) ''}''
                    then (case current_region_name of
                            None \<Rightarrow> region_elems
                          | Some region_name \<Rightarrow>
                              append_indices region_name (split (strip line)) region_elems)
                    else region_elems);
                 in_region_elements1 =
                   (if in_region_elements \<and> strip line = ''}'' then False else in_region_elements);
                 closes = (in_region \<and> \<not> in_region_elements1 \<and> strip line = ''}'')
             in region_elements_loop rest (if closes then False else in_region)
                  (if closes then None else current_region_name) in_region_elements1
                  region_elems1))"

definition parse_region_elements :: "string list \<Rightarrow> (string, int list) dict" where
  "parse_region_elements file_lines = region_elements_loop file_lines False None False []"

text \<open>
  The region sections of a file with two regions that both list element 0 and declare one
  element each.
\<close>

definition overlap_file :: "string list" where
  "overlap_file =
     [''Region ( '' @ [CHR 0x22] @ ''A'' @ [CHR 0x22] @ '' ) {'',
      ''  material = Silicon'',
      ''  Elements (1) {'',
      ''    0'',
      ''  }'',
      ''}'',
      ''Region ( '' @ [CHR 0x22] @ ''B'' @ [CHR 0x22] @ '' ) {'',
      ''  material = Oxide'',
      ''  Elements (1) {'',
      ''    0'',
      ''  }'',
      ''}'']"

subsection \<open>Helper lemmas for face reconstruction\<close>

lemma list_item_nonneg:
  "0 \<le> i \<Longrightarrow> list_item xs i = (if nat i < length xs then Inr (xs ! nat i) else Inl IndexError)"
  by (simp add: list_item_def)

lemma edge_verts_of_in_range:
  assumes "ref_index r < length edges"
  shows "edge_verts_of r edges = Inr (spec_edge_pair r edges)"
proof (cases "r < 0")
  case True
  then have nn: "0 \<le> - r - 1" by simp
  have idx: "nat (- r - 1) = ref_index r" using True by (simp add: ref_index_def)
  show ?thesis
    using True assms
    by (simp add: edge_verts_of_def Let_def list_item_nonneg[OF nn] idx spec_edge_pair_def
        split: prod.splits)
next
  case False
  then show ?thesis
    using assms
    by (simp add: edge_verts_of_def Let_def list_item_nonneg ref_index_def spec_edge_pair_def)
qed

lemma edge_verts_of_out_of_range:
  assumes "\<not> ref_index r < length edges"
  shows "edge_verts_of r edges = Inl IndexError"
proof (cases "r < 0")
  case True
  then have nn: "0 \<le> - r - 1" by simp
  have idx: "nat (- r - 1) = ref_index r" using True by (simp add: ref_index_def)
  show ?thesis
    using True assms by (simp add: edge_verts_of_def Let_def list_item_nonneg[OF nn] idx)
next
  case False
  then show ?thesis
    using assms by (simp add: edge_verts_of_def Let_def list_item_nonneg ref_index_def)
qed

lemma extend_vertices_in_range:
  assumes "\<forall>r \<in> set rs. ref_index r < length edges"
  shows "extend_vertices rs edges acc =
           Inr (acc @ concat (map (\<lambda>r. pair_list (spec_edge_pair r edges)) rs))"
  using assms
proof (induction rs arbitrary: acc)
  case Nil
  then show ?case by simp
next
  case (Cons r rs)
  then show ?case
    by (simp add: edge_verts_of_in_range pair_list_def split: prod.splits)
qed

lemma remdups_snoc:
  "remdups (xs @ [v]) = filter (\<lambda>x. x \<noteq> v) (remdups xs) @ [v]"
  by (induction xs) auto

lemma first_seen_Cons:
  "first_seen (v # vs) = v # filter (\<lambda>y. y \<noteq> v) (first_seen vs)"
  by (simp add: first_seen_def remdups_snoc rev_filter)

lemma unique_in_order_acc:
  "distinct acc \<Longrightarrow>
   unique_in_order vs acc = acc @ filter (\<lambda>v. v \<notin> set acc) (first_seen vs)"
proof (induction vs arbitrary: acc)
  case Nil
  then show ?case by (simp add: first_seen_def)
next
  case (Cons v vs)
  show ?case
  proof (cases "v \<in> set acc")
    case True
    have "filter (\<lambda>x. x \<notin> set acc) (filter (\<lambda>y. y \<noteq> v) (first_seen vs)) =
          filter (\<lambda>x. x \<notin> set acc) (first_seen vs)"
      using True by (auto intro: filter_cong)
    then show ?thesis
      using True Cons.IH[OF Cons.prems] by (simp add: first_seen_Cons)
  next
    case False
    then have d: "distinct (acc @ [v])" using Cons.prems by simp
    have "filter (\<lambda>x. x \<notin> set acc) (filter (\<lambda>y. y \<noteq> v) (first_seen vs)) =
          filter (\<lambda>x. x \<notin> set (acc @ [v])) (first_seen vs)"
      by (auto intro: filter_cong)
    then show ?thesis
      using False Cons.IH[OF d] by (simp add: first_seen_Cons)
  qed
qed

lemma unique_in_order_first_seen: "unique_in_order vs [] = first_seen vs"
  using unique_in_order_acc[of "[]" vs] by simp

lemma first_seen_set: "set (first_seen xs) = set xs"
  by (simp add: first_seen_def)

lemma first_seen_distinct: "distinct (first_seen xs)"
  by (simp add: first_seen_def)

lemma first_seen_length: "length (first_seen xs) = card (set xs)"
  using distinct_card[OF first_seen_distinct, of xs] by (simp add: first_seen_set)

lemma reconstruct_face_vertices_in_range:
  assumes "ref_index e1 < length edges" "ref_index e2 < length edges"
    "ref_index e3 < length edges"
  shows "reconstruct_face_vertices (e1, e2, e3) edges =
           Inr (take 3 (first_seen (spec_face_sequence (e1, e2, e3) edges)))"
proof -
  have "extend_vertices [e1, e2, e3] edges [] =
          Inr (spec_face_sequence (e1, e2, e3) edges)"
    using extend_vertices_in_range[of "[e1, e2, e3]" edges "[]"] assms
    by (simp add: spec_face_sequence_def)
  then show ?thesis
    unfolding reconstruct_face_vertices_def
    by (simp add: unique_in_order_first_seen Let_def del: extend_vertices.simps)
qed

lemma ref_index_nonneg [simp]: "ref_index (int k) = k"
  by (simp add: ref_index_def)

lemma ref_index_negated [simp]: "ref_index (- (int k + 1)) = k"
  by (simp add: ref_index_def)

lemma set_pair_list_spec_edge_pair:
  "set (pair_list (spec_edge_pair r edges)) =
     {fst (edges ! ref_index r), snd (edges ! ref_index r)}"
  by (auto simp: pair_list_def spec_edge_pair_def)

lemma set_spec_face_sequence:
  "set (spec_face_sequence (e1, e2, e3) edges) =
     {fst (edges ! ref_index e1), snd (edges ! ref_index e1)} \<union>
     {fst (edges ! ref_index e2), snd (edges ! ref_index e2)} \<union>
     {fst (edges ! ref_index e3), snd (edges ! ref_index e3)}"
  unfolding spec_face_sequence_def prod.case set_append set_pair_list_spec_edge_pair
  by (simp add: Un_assoc)

lemma reconstruct_face_vertices_three:
  assumes "ref_index e1 < length edges" "ref_index e2 < length edges"
    "ref_index e3 < length edges"
    and "card (set (spec_face_sequence (e1, e2, e3) edges)) = 3"
  shows "reconstruct_face_vertices (e1, e2, e3) edges =
           Inr (first_seen (spec_face_sequence (e1, e2, e3) edges))"
  using reconstruct_face_vertices_in_range[OF assms(1-3)] assms(4)
  by (simp add: first_seen_length)

subsection \<open>Face reconstruction: resolution, order and the three-vertex case\<close>

text \<open>
  C1 (amended). For a face given as three signed edge references that all index an existing
  edge: a non-negative reference \<open>k\<close> resolves to edge \<open>k\<close>'s stored pair, a negative
  reference \<open>-(k+1)\<close> resolves to edge \<open>k\<close>'s pair swapped, the three pairs are concatenated
  in reference order, and the reconstruction returns the first three entries of the
  first-seen-order, duplicate-free vertex list. Whenever the three edges cover exactly three
  distinct vertices the result is exactly those three vertices, in first-seen order.
\<close>

theorem reconstruct_face_vertices_first_seen:
  assumes "ref_index e1 < length edges" "ref_index e2 < length edges"
    "ref_index e3 < length edges"
  shows "edge_verts_of e1 edges = Inr (spec_edge_pair e1 edges) \<and>
         edge_verts_of e2 edges = Inr (spec_edge_pair e2 edges) \<and>
         edge_verts_of e3 edges = Inr (spec_edge_pair e3 edges) \<and>
         extend_vertices [e1, e2, e3] edges [] = Inr (spec_face_sequence (e1, e2, e3) edges) \<and>
         reconstruct_face_vertices (e1, e2, e3) edges =
           Inr (take 3 (first_seen (spec_face_sequence (e1, e2, e3) edges))) \<and>
         (card (set (spec_face_sequence (e1, e2, e3) edges)) = 3 \<longrightarrow>
            (\<exists>vs. reconstruct_face_vertices (e1, e2, e3) edges = Inr vs \<and>
                  vs = first_seen (spec_face_sequence (e1, e2, e3) edges) \<and>
                  length vs = 3 \<and> distinct vs \<and>
                  set vs = set (spec_face_sequence (e1, e2, e3) edges)))"
proof -
  have ext: "extend_vertices [e1, e2, e3] edges [] =
               Inr (spec_face_sequence (e1, e2, e3) edges)"
    using extend_vertices_in_range[of "[e1, e2, e3]" edges "[]"] assms
    by (simp add: spec_face_sequence_def)
  have three: "card (set (spec_face_sequence (e1, e2, e3) edges)) = 3 \<longrightarrow>
            (\<exists>vs. reconstruct_face_vertices (e1, e2, e3) edges = Inr vs \<and>
                  vs = first_seen (spec_face_sequence (e1, e2, e3) edges) \<and>
                  length vs = 3 \<and> distinct vs \<and>
                  set vs = set (spec_face_sequence (e1, e2, e3) edges))"
    using reconstruct_face_vertices_three[OF assms]
    by (simp add: first_seen_length first_seen_distinct first_seen_set)
  show ?thesis
    using edge_verts_of_in_range[OF assms(1)] edge_verts_of_in_range[OF assms(2)]
      edge_verts_of_in_range[OF assms(3)] ext
      reconstruct_face_vertices_in_range[OF assms] three
    by blast
qed

text \<open>
  A face over the stored edges \<open>(0,1)\<close>, \<open>(1,2)\<close>, \<open>(2,0)\<close> whose second reference is
  reversed: the result is the triangle \<open>0, 1, 2\<close>.
\<close>

theorem reconstruct_face_vertices_first_seen_witness:
  "ref_index 0 < length [(0, 1), (1, 2), (2, 0 :: int)] \<and>
   ref_index (- 2) < length [(0, 1), (1, 2), (2, 0 :: int)] \<and>
   ref_index 2 < length [(0, 1), (1, 2), (2, 0 :: int)] \<and>
   edge_verts_of (- 2) [(0, 1), (1, 2), (2, 0)] = Inr (2, 1) \<and>
   extend_vertices [0, - 2, 2] [(0, 1), (1, 2), (2, 0)] [] = Inr [0, 1, 2, 1, 2, 0] \<and>
   reconstruct_face_vertices (0, - 2, 2) [(0, 1), (1, 2), (2, 0)] = Inr [0, 1, 2]"
proof -
  have r: "ref_index 0 < length [(0, 1), (1, 2), (2, 0 :: int)]"
    "ref_index (- 2) < length [(0, 1), (1, 2), (2, 0 :: int)]"
    "ref_index 2 < length [(0, 1), (1, 2), (2, 0 :: int)]"
    by (simp_all add: ref_index_def)
  have s: "spec_face_sequence (0, - 2, 2) [(0, 1), (1, 2), (2, 0)] = [0, 1, 2, 1, 2, 0]"
    by (simp add: spec_face_sequence_def spec_edge_pair_def pair_list_def ref_index_def)
  have p: "spec_edge_pair (- 2) [(0, 1), (1, 2), (2, 0)] = (2, 1)"
    by (simp add: spec_edge_pair_def ref_index_def)
  have f: "first_seen [0, 1, 2, 1, 2, 0] = [0, 1, 2]"
    by (simp add: first_seen_def)
  show ?thesis
    using reconstruct_face_vertices_first_seen[OF r] r
    by (simp only: s p f) simp
qed

text \<open>
  The claim as first stated, that the returned tuple is the whole first-seen-order list, fails
  when the three edges span more than three vertices: the fallback \<^verbatim>\<open>unique_verts[:3]\<close>
  keeps the first three only.
\<close>

theorem reconstruct_face_vertices_truncates:
  "first_seen (spec_face_sequence (0, 1, 2) [(0, 1), (2, 3), (4, 5)]) = [0, 1, 2, 3, 4, 5] \<and>
   reconstruct_face_vertices (0, 1, 2) [(0, 1), (2, 3), (4, 5)] = Inr [0, 1, 2] \<and>
   reconstruct_face_vertices (0, 1, 2) [(0, 1), (2, 3), (4, 5)] \<noteq>
     Inr (first_seen (spec_face_sequence (0, 1, 2) [(0, 1), (2, 3), (4, 5)]))"
  by (simp add: reconstruct_face_vertices_def edge_verts_of_def list_item_def
      spec_face_sequence_def spec_edge_pair_def pair_list_def ref_index_def first_seen_def)

subsection \<open>Face reconstruction: negating one reference\<close>

text \<open>
  C4. For edge indices \<open>k\<close>, \<open>m\<close>, \<open>n\<close> of existing edges that together span exactly three
  distinct vertices, the face reconstructed from \<open>(+k, +m, +n)\<close> and the face reconstructed
  after replacing any one reference by its negation \<open>-(index+1)\<close> have the same set of three
  vertices.
\<close>

theorem reconstruct_face_vertices_sign_roundtrip:
  assumes "k < length edges" "m < length edges" "n < length edges"
    and "card ({fst (edges ! k), snd (edges ! k)} \<union> {fst (edges ! m), snd (edges ! m)} \<union>
               {fst (edges ! n), snd (edges ! n)}) = 3"
  shows "\<exists>vs vk vm vn.
           reconstruct_face_vertices (int k, int m, int n) edges = Inr vs \<and>
           reconstruct_face_vertices (- (int k + 1), int m, int n) edges = Inr vk \<and>
           reconstruct_face_vertices (int k, - (int m + 1), int n) edges = Inr vm \<and>
           reconstruct_face_vertices (int k, int m, - (int n + 1)) edges = Inr vn \<and>
           card (set vs) = 3 \<and> length vs = 3 \<and> length vk = 3 \<and> length vm = 3 \<and>
           length vn = 3 \<and>
           set vk = set vs \<and> set vm = set vs \<and> set vn = set vs"
proof -
  let ?V = "{fst (edges ! k), snd (edges ! k)} \<union> {fst (edges ! m), snd (edges ! m)} \<union>
            {fst (edges ! n), snd (edges ! n)}"
  have face: "reconstruct_face_vertices (e1, e2, e3) edges =
                Inr (first_seen (spec_face_sequence (e1, e2, e3) edges)) \<and>
              set (first_seen (spec_face_sequence (e1, e2, e3) edges)) = ?V \<and>
              length (first_seen (spec_face_sequence (e1, e2, e3) edges)) = 3"
    if "ref_index e1 = k" "ref_index e2 = m" "ref_index e3 = n" for e1 e2 e3
  proof -
    have s: "set (spec_face_sequence (e1, e2, e3) edges) = ?V"
      using that by (simp only: set_spec_face_sequence)
    have c: "card (set (spec_face_sequence (e1, e2, e3) edges)) = 3"
      using s assms(4) by simp
    have "reconstruct_face_vertices (e1, e2, e3) edges =
                Inr (first_seen (spec_face_sequence (e1, e2, e3) edges))"
      using reconstruct_face_vertices_three[of e1 edges e2 e3] that assms(1-3) c by simp
    then show ?thesis
      using s c by (simp add: first_seen_set first_seen_length)
  qed
  have rk: "ref_index (int k) = k" "ref_index (- (int k + 1)) = k"
    and rm: "ref_index (int m) = m" "ref_index (- (int m + 1)) = m"
    and rn: "ref_index (int n) = n" "ref_index (- (int n + 1)) = n"
    by (simp_all add: ref_index_def)
  note a = face[OF rk(1) rm(1) rn(1)]
  note b = face[OF rk(2) rm(1) rn(1)]
  note c = face[OF rk(1) rm(2) rn(1)]
  note d = face[OF rk(1) rm(1) rn(2)]
  have crd: "card (set (first_seen (spec_face_sequence (int k, int m, int n) edges))) = 3"
    using a assms(4) by (simp only:)
  show ?thesis
    using a b c d crd by (intro exI conjI) (erule conjunct1 | simp only:)+
qed

theorem reconstruct_face_vertices_sign_roundtrip_witness:
  "(0::nat) < length [(0, 1), (1, 2), (2, 0 :: int)] \<and>
   (1::nat) < length [(0, 1), (1, 2), (2, 0 :: int)] \<and>
   (2::nat) < length [(0, 1), (1, 2), (2, 0 :: int)] \<and>
   reconstruct_face_vertices (0, 1, 2) [(0, 1), (1, 2), (2, 0)] = Inr [0, 1, 2] \<and>
   reconstruct_face_vertices (- 1, 1, 2) [(0, 1), (1, 2), (2, 0)] = Inr [1, 0, 2] \<and>
   (\<exists>vs vk vm vn.
      reconstruct_face_vertices (int 0, int 1, int 2) [(0, 1), (1, 2), (2, 0)] = Inr vs \<and>
      reconstruct_face_vertices (- (int 0 + 1), int 1, int 2) [(0, 1), (1, 2), (2, 0)] = Inr vk \<and>
      reconstruct_face_vertices (int 0, - (int 1 + 1), int 2) [(0, 1), (1, 2), (2, 0)] = Inr vm \<and>
      reconstruct_face_vertices (int 0, int 1, - (int 2 + 1)) [(0, 1), (1, 2), (2, 0)] = Inr vn \<and>
      card (set vs) = 3 \<and> length vs = 3 \<and> length vk = 3 \<and> length vm = 3 \<and>
      length vn = 3 \<and> set vk = set vs \<and> set vm = set vs \<and> set vn = set vs)"
proof -
  have len: "(0::nat) < length [(0, 1), (1, 2), (2, 0 :: int)]"
    "(1::nat) < length [(0, 1), (1, 2), (2, 0 :: int)]"
    "(2::nat) < length [(0, 1), (1, 2), (2, 0 :: int)]"
    by simp_all
  have crd: "card ({fst ([(0, 1), (1, 2), (2, 0 :: int)] ! 0), snd ([(0, 1), (1, 2), (2, 0 :: int)] ! 0)} \<union>
                   {fst ([(0, 1), (1, 2), (2, 0 :: int)] ! 1), snd ([(0, 1), (1, 2), (2, 0 :: int)] ! 1)} \<union>
                   {fst ([(0, 1), (1, 2), (2, 0 :: int)] ! 2), snd ([(0, 1), (1, 2), (2, 0 :: int)] ! 2)}) = 3"
    by (simp add: card_insert_if)
  have ev: "reconstruct_face_vertices (0, 1, 2) [(0, 1), (1, 2), (2, 0)] = Inr [0, 1, 2]"
    "reconstruct_face_vertices (- 1, 1, 2) [(0, 1), (1, 2), (2, 0)] = Inr [1, 0, 2]"
    by (simp_all add: reconstruct_face_vertices_def edge_verts_of_def list_item_def)
  show ?thesis
    using reconstruct_face_vertices_sign_roundtrip[OF len crd] len ev by blast
qed

subsection \<open>Element reconstruction: union, order and degenerate elements\<close>

lemma pad_zero_eq: "pad_zero vl = vl @ replicate (4 - length vl) 0"
proof (induction vl rule: pad_zero.induct)
  case (1 vl)
  show ?case
  proof (cases "length vl < 4")
    case True
    then have "pad_zero vl = (vl @ [0]) @ replicate (4 - length (vl @ [0])) 0"
      using 1 by (subst pad_zero.simps) simp
    also have "\<dots> = vl @ replicate (4 - length vl) 0"
      using True by (simp add: replicate_app_Cons_same Suc_diff_Suc flip: replicate_Suc)
    finally show ?thesis .
  next
    case False
    then show ?thesis by (subst pad_zero.simps) simp
  qed
qed

lemma actual_idx_ref_index:
  "0 \<le> (if r < 0 then - r - 1 else r) \<and> nat (if r < 0 then - r - 1 else r) = ref_index r"
  by (simp add: ref_index_def)

lemma update_vertices_step:
  assumes "ref_index r < length fav"
  shows "update_vertices (r # rs) fav V = update_vertices rs fav (V \<union> set (fav ! ref_index r))"
proof -
  have "list_item fav (if r < 0 then - r - 1 else r) = Inr (fav ! ref_index r)"
    using assms actual_idx_ref_index[of r] by (simp add: list_item_nonneg)
  then show ?thesis by (simp add: Let_def)
qed

lemma update_vertices_out_of_range:
  assumes "\<not> ref_index r < length fav"
  shows "update_vertices (r # rs) fav V = Inl IndexError"
proof -
  have "list_item fav (if r < 0 then - r - 1 else r) = Inl IndexError"
    using assms actual_idx_ref_index[of r] by (simp add: list_item_nonneg)
  then show ?thesis by (simp add: Let_def)
qed

lemma update_vertices_four:
  assumes "ref_index f1 < length fav" "ref_index f2 < length fav"
    "ref_index f3 < length fav" "ref_index f4 < length fav"
  shows "update_vertices [f1, f2, f3, f4] fav {} = Inr (spec_element_union (f1, f2, f3, f4) fav)"
  using assms by (simp add: update_vertices_step spec_element_union_def del: update_vertices.simps(2))

lemma finite_spec_element_union: "finite (spec_element_union ef fav)"
  by (cases ef) (simp add: spec_element_union_def)

lemma reconstruct_element_vertices_union:
  assumes "ref_index f1 < length fav" "ref_index f2 < length fav"
    "ref_index f3 < length fav" "ref_index f4 < length fav"
  shows "reconstruct_element_vertices list_of (f1, f2, f3, f4) fav =
           (if card (spec_element_union (f1, f2, f3, f4) fav) \<noteq> 4
            then Inr (take 4 (pad_zero (list_of (spec_element_union (f1, f2, f3, f4) fav))))
            else Inr (sorted_list_of_set (spec_element_union (f1, f2, f3, f4) fav)))"
  unfolding reconstruct_element_vertices_def prod.case update_vertices_four[OF assms]
  by (simp add: Let_def)

text \<open>
  C2. For an element given as four signed face references that index existing faces: a
  reference \<open>k\<close> and a reference \<open>-(k+1)\<close> both contribute the vertex set of face \<open>k\<close>, the
  collected vertices are the union of the four referenced faces' vertex sets, and whenever
  that union has exactly four vertices the reconstruction returns exactly those four vertices
  in ascending order.
\<close>

theorem reconstruct_element_vertices_sorted_union:
  assumes "ref_index f1 < length fav" "ref_index f2 < length fav"
    "ref_index f3 < length fav" "ref_index f4 < length fav"
  shows "(\<forall>k < length fav. \<forall>V.
            update_vertices [int k] fav V = Inr (V \<union> set (fav ! k)) \<and>
            update_vertices [- (int k + 1)] fav V = Inr (V \<union> set (fav ! k))) \<and>
         update_vertices [f1, f2, f3, f4] fav {} =
           Inr (set (fav ! ref_index f1) \<union> set (fav ! ref_index f2) \<union>
                set (fav ! ref_index f3) \<union> set (fav ! ref_index f4)) \<and>
         (card (spec_element_union (f1, f2, f3, f4) fav) = 4 \<longrightarrow>
            (\<exists>vs. reconstruct_element_vertices list_of (f1, f2, f3, f4) fav = Inr vs \<and>
                  set vs = spec_element_union (f1, f2, f3, f4) fav \<and>
                  length vs = 4 \<and> sorted_wrt (<) vs))"
proof (intro conjI allI impI)
  fix k V
  assume k: "k < length fav"
  have "ref_index (int k) < length fav" using k by simp
  from update_vertices_step[OF this, of "[]" V]
  show "update_vertices [int k] fav V = Inr (V \<union> set (fav ! k))" by simp
  have "ref_index (- (int k + 1)) < length fav" using k by (simp add: ref_index_def)
  from update_vertices_step[OF this, of "[]" V]
  show "update_vertices [- (int k + 1)] fav V = Inr (V \<union> set (fav ! k))"
    by (simp add: ref_index_def)
next
  show "update_vertices [f1, f2, f3, f4] fav {} =
           Inr (set (fav ! ref_index f1) \<union> set (fav ! ref_index f2) \<union>
                set (fav ! ref_index f3) \<union> set (fav ! ref_index f4))"
    using update_vertices_four[OF assms] by (simp add: spec_element_union_def)
next
  let ?U = "spec_element_union (f1, f2, f3, f4) fav"
  assume c: "card ?U = 4"
  have fin: "finite ?U" by (rule finite_spec_element_union)
  have r: "reconstruct_element_vertices list_of (f1, f2, f3, f4) fav = Inr (sorted_list_of_set ?U)"
    using reconstruct_element_vertices_union[OF assms, of list_of] c by simp
  have "set (sorted_list_of_set ?U) = ?U" "length (sorted_list_of_set ?U) = 4"
    "sorted_wrt (<) (sorted_list_of_set ?U)"
    using fin c by simp_all
  with r show "\<exists>vs. reconstruct_element_vertices list_of (f1, f2, f3, f4) fav = Inr vs \<and>
                  set vs = ?U \<and> length vs = 4 \<and> sorted_wrt (<) vs"
    by blast
qed

theorem reconstruct_element_vertices_sorted_union_witness:
  "ref_index 0 < length [[0, 1, 2], [0, 1, 3], [1, 2, 3], [0, 2, 3 :: int]] \<and>
   ref_index (- 2) < length [[0, 1, 2], [0, 1, 3], [1, 2, 3], [0, 2, 3 :: int]] \<and>
   ref_index 2 < length [[0, 1, 2], [0, 1, 3], [1, 2, 3], [0, 2, 3 :: int]] \<and>
   ref_index (- 4) < length [[0, 1, 2], [0, 1, 3], [1, 2, 3], [0, 2, 3 :: int]] \<and>
   card (spec_element_union (0, - 2, 2, - 4) [[0, 1, 2], [0, 1, 3], [1, 2, 3], [0, 2, 3]]) = 4 \<and>
   reconstruct_element_vertices sorted_list_of_set (0, - 2, 2, - 4)
     [[0, 1, 2], [0, 1, 3], [1, 2, 3], [0, 2, 3]] = Inr [0, 1, 2, 3] \<and>
   (\<exists>vs. reconstruct_element_vertices sorted_list_of_set (0, - 2, 2, - 4)
           [[0, 1, 2], [0, 1, 3], [1, 2, 3], [0, 2, 3]] = Inr vs \<and>
         set vs = {0, 1, 2, 3} \<and> length vs = 4 \<and> sorted_wrt (<) vs)"
proof -
  let ?fav = "[[0, 1, 2], [0, 1, 3], [1, 2, 3], [0, 2, 3 :: int]]"
  have r: "ref_index 0 < length ?fav" "ref_index (- 2) < length ?fav"
    "ref_index 2 < length ?fav" "ref_index (- 4) < length ?fav"
    by (simp_all add: ref_index_def)
  have u: "spec_element_union (0, - 2, 2, - 4) ?fav = {0, 1, 2, 3}"
    by (auto simp: spec_element_union_def ref_index_def)
  have c: "card (spec_element_union (0, - 2, 2, - 4) ?fav) = 4"
    unfolding u by simp
  have e: "reconstruct_element_vertices sorted_list_of_set (0, - 2, 2, - 4) ?fav = Inr [0, 1, 2, 3]"
    by code_simp
  from reconstruct_element_vertices_sorted_union[OF r, of sorted_list_of_set] c
  have "\<exists>vs. reconstruct_element_vertices sorted_list_of_set (0, - 2, 2, - 4) ?fav = Inr vs \<and>
         set vs = {0, 1, 2, 3} \<and> length vs = 4 \<and> sorted_wrt (<) vs"
    unfolding u by blast
  with r c e show ?thesis by blast
qed

text \<open>
  C8 (amended). For an element whose four face references index existing faces and whose
  vertex union does not have exactly four vertices, the reconstruction returns a 4-tuple: the
  first four entries of the union, listed in set iteration order, followed by zeros. The
  reconstruction loop of the export appends that tuple and records no diagnostic: the
  warnings, the errors and the status are unchanged.
\<close>

theorem reconstruct_element_vertices_pad_or_truncate:
  assumes "ref_index f1 < length fav" "ref_index f2 < length fav"
    "ref_index f3 < length fav" "ref_index f4 < length fav"
    and "card (spec_element_union (f1, f2, f3, f4) fav) \<noteq> 4"
  shows "\<exists>vs. reconstruct_element_vertices list_of (f1, f2, f3, f4) fav = Inr vs \<and>
              length vs = 4 \<and>
              vs = take 4 (list_of (spec_element_union (f1, f2, f3, f4) fav) @
                           replicate (4 - length (list_of (spec_element_union (f1, f2, f3, f4) fav))) 0) \<and>
              reconstruct_elements list_of [(f1, f2, f3, f4)] fav acc st = (acc @ [vs], st)"
proof -
  let ?U = "spec_element_union (f1, f2, f3, f4) fav"
  let ?vs = "take 4 (list_of ?U @ replicate (4 - length (list_of ?U)) 0)"
  have r: "reconstruct_element_vertices list_of (f1, f2, f3, f4) fav = Inr ?vs"
    using reconstruct_element_vertices_union[OF assms(1-4), of list_of] assms(5)
    by (simp add: pad_zero_eq)
  have l: "length ?vs = 4" by simp
  have "reconstruct_elements list_of [(f1, f2, f3, f4)] fav acc st = (acc @ [?vs], st)"
    by (simp add: r)
  with r l show ?thesis by blast
qed

theorem reconstruct_element_vertices_pad_or_truncate_witness:
  "ref_index 0 < length [[0, 1, 2 :: int]] \<and>
   card (spec_element_union (0, 0, 0, 0) [[0, 1, 2]]) \<noteq> 4 \<and>
   reconstruct_element_vertices sorted_list_of_set (0, 0, 0, 0) [[0, 1, 2]] = Inr [0, 1, 2, 0] \<and>
   reconstruct_elements sorted_list_of_set [(0, 0, 0, 0)] [[0, 1, 2]] [] fresh_diagnostics =
     ([[0, 1, 2, 0]], fresh_diagnostics)"
proof -
  have r: "ref_index 0 < length [[0, 1, 2 :: int]]" by (simp add: ref_index_def)
  have u: "spec_element_union (0, 0, 0, 0) [[0, 1, 2]] = {0, 1, 2}"
    by (auto simp: spec_element_union_def ref_index_def)
  have c: "card (spec_element_union (0, 0, 0, 0) [[0, 1, 2]]) \<noteq> 4"
    unfolding u by simp
  have s: "sorted_list_of_set {0, 1, 2 :: int} = [0, 1, 2]"
    by code_simp
  from reconstruct_element_vertices_pad_or_truncate[OF r r r r c, of sorted_list_of_set "[]" fresh_diagnostics]
  show ?thesis using r c unfolding u s by simp
qed

text \<open>
  The claim as first stated has the element flagged. An element over two disjoint faces has
  six vertices; it is cut to four and the loop leaves the diagnostics empty.
\<close>

theorem reconstruct_elements_no_diagnostic:
  "card (spec_element_union (0, 1, - 1, - 2) [[0, 1, 2], [3, 4, 5]]) = 6 \<and>
   reconstruct_elements sorted_list_of_set [(0, 1, - 1, - 2)] [[0, 1, 2], [3, 4, 5]] []
     fresh_diagnostics = ([[0, 1, 2, 3]], fresh_diagnostics) \<and>
   parse_warnings (snd (reconstruct_elements sorted_list_of_set [(0, 1, - 1, - 2)]
     [[0, 1, 2], [3, 4, 5]] [] fresh_diagnostics)) = [] \<and>
   parse_errors (snd (reconstruct_elements sorted_list_of_set [(0, 1, - 1, - 2)]
     [[0, 1, 2], [3, 4, 5]] [] fresh_diagnostics)) = []"
proof -
  have u: "spec_element_union (0, 1, - 1, - 2) [[0, 1, 2], [3, 4, 5]] = {0, 1, 2, 3, 4, 5}"
    by (auto simp: spec_element_union_def ref_index_def)
  have c: "card (spec_element_union (0, 1, - 1, - 2) [[0, 1, 2], [3, 4, 5]]) = 6"
    unfolding u by simp
  have e: "reconstruct_element_vertices sorted_list_of_set (0, 1, - 1, - 2) [[0, 1, 2], [3, 4, 5]] =
             Inr [0, 1, 2, 3]"
    by code_simp
  show ?thesis
    using c by (simp add: e fresh_diagnostics_def)
qed

subsection \<open>Statistics\<close>

lemma float_overflow_bound_large: "1000000 < float_overflow_bound"
  by (simp add: float_overflow_bound_def)

lemma within_float_range_small:
  assumes "b \<noteq> 0" "\<bar>a\<bar> \<le> 1000000"
  shows "within_float_range a b"
proof -
  have "1 \<le> \<bar>b\<bar>" using assms(1) by simp
  then have "float_overflow_bound * 1 \<le> float_overflow_bound * \<bar>b\<bar>"
    using float_overflow_bound_large by (intro mult_left_mono) simp_all
  then have le: "float_overflow_bound \<le> float_overflow_bound * \<bar>b\<bar>"
    by (simp only: mult_1_right)
  show ?thesis
    unfolding within_float_range_def
    using le assms(2) float_overflow_bound_large by linarith
qed

lemma within_float_range_zero: "b \<noteq> 0 \<Longrightarrow> within_float_range 0 b"
  by (rule within_float_range_small) simp_all

lemma compute_statistics_ints:
  assumes "nb_vertices info = IntV V" "nb_edges info = IntV E" "nb_faces info = IntV F"
    "nb_elements info = IntV C"
  shows "compute_statistics (Some info) lc =
           (if V = 0 then Inl ZeroDivisionError
            else if \<not> (within_float_range (2 * E) V \<and> within_float_range F V \<and>
                        within_float_range (4 * C) V) then Inl OverflowError
            else if E = 0 then Inl ZeroDivisionError
            else if \<not> within_float_range F E then Inl OverflowError
            else if F = 0 then Inl ZeroDivisionError
            else if \<not> within_float_range C F then Inl OverflowError
            else Inr \<lparr>euler_characteristic = V - E + F - C,
                       edges_per_vertex = real_of_int (2 * E) / real_of_int V,
                       faces_per_vertex = real_of_int F / real_of_int V,
                       elements_per_vertex = real_of_int (4 * C) / real_of_int V,
                       faces_per_edge = real_of_int F / real_of_int E,
                       elements_per_face = real_of_int C / real_of_int F,
                       boundary_edges = 3 * F - 2 * E,
                       interior_faces = get_or_zero lc CHR ''i'',
                       interface_faces = get_or_zero lc CHR ''f'',
                       exterior_faces = get_or_zero lc CHR ''e''\<rparr>)"
  using assms by (simp add: compute_statistics_def true_div_def Let_def)

text \<open>
  C9 (amended). With integer counts \<open>V\<close>, \<open>E\<close>, \<open>F\<close>, \<open>C\<close> declared in the Info block, the
  statistics computation returns a value exactly when \<open>V\<close>, \<open>E\<close> and \<open>F\<close> are not zero and
  the five ratios are within the float range, and whenever it returns it reports the Euler
  characteristic \<open>V - E + F - C\<close>; for \<open>V = 5\<close>, \<open>E = 9\<close>, \<open>F = 7\<close>, \<open>C = 2\<close> it reports 1.
\<close>

theorem compute_statistics_euler_characteristic:
  assumes "nb_vertices info = IntV V" "nb_edges info = IntV E" "nb_faces info = IntV F"
    "nb_elements info = IntV C"
  shows "((\<exists>stats. compute_statistics (Some info) locations_chars = Inr stats) \<longleftrightarrow>
            (V \<noteq> 0 \<and> E \<noteq> 0 \<and> F \<noteq> 0 \<and>
             within_float_range (2 * E) V \<and> within_float_range F V \<and>
             within_float_range (4 * C) V \<and> within_float_range F E \<and>
             within_float_range C F)) \<and>
         (\<forall>stats. compute_statistics (Some info) locations_chars = Inr stats \<longrightarrow>
                    euler_characteristic stats = V - E + F - C)"
  unfolding compute_statistics_ints[OF assms, of locations_chars]
  by (auto split: if_splits)

theorem compute_statistics_euler_characteristic_witness:
  "\<exists>stats. compute_statistics
       (Some \<lparr>version = StrV ''1.0'', type = StrV ''grid'', dimension = IntV 3,
              nb_vertices = IntV 5, nb_edges = IntV 9, nb_faces = IntV 7,
              nb_elements = IntV 2, nb_regions = IntV 1,
              regions = ListV [''R''], materials = ListV [''Silicon'']\<rparr>)
       [(CHR ''e'', 6), (CHR ''i'', 1)] = Inr stats \<and>
     euler_characteristic stats = 1"
proof -
  let ?info = "\<lparr>version = StrV ''1.0'', type = StrV ''grid'', dimension = IntV 3,
              nb_vertices = IntV 5, nb_edges = IntV 9, nb_faces = IntV 7,
              nb_elements = IntV 2, nb_regions = IntV 1,
              regions = ListV [''R''], materials = ListV [''Silicon'']\<rparr>"
  let ?lc = "[(CHR ''e'', 6), (CHR ''i'', 1)]"
  have c: "nb_vertices ?info = IntV 5" "nb_edges ?info = IntV 9" "nb_faces ?info = IntV 7"
    "nb_elements ?info = IntV 2"
    by simp_all
  have r: "within_float_range (2 * 9) 5" "within_float_range 7 5" "within_float_range (4 * 2) 5"
    "within_float_range 7 9" "within_float_range 2 7"
    by (rule within_float_range_small; simp)+
  note t = compute_statistics_euler_characteristic[OF c, of ?lc]
  from t r obtain stats where s: "compute_statistics (Some ?info) ?lc = Inr stats"
    by auto
  with t have "euler_characteristic stats = 5 - 9 + 7 - 2" by blast
  with s show ?thesis by auto
qed

text \<open>
  The claim as first stated has the Euler characteristic reported for every block of declared
  counts. For a block that declares no vertex the first ratio raises and nothing is reported,
  although \<open>V - E + F - C\<close> is defined.
\<close>

theorem compute_statistics_zero_vertices_no_report:
  "nb_vertices zero_vertex_info = IntV 0 \<and>
   compute_statistics (Some zero_vertex_info) [(CHR ''e'', 6), (CHR ''i'', 1)] =
     Inl ZeroDivisionError"
  by (simp add: compute_statistics_def zero_vertex_info_def true_div_def Let_def)

text \<open>
  C10 (amended). If the Info block holds integer counts and the vertex, edge or face count is
  0, the statistics computation does not return a value: it raises \<^verbatim>\<open>ZeroDivisionError\<close>
  when the vertex count is 0 or when the three ratios over the vertex count are within the
  float range, as for the counts that the defaulting of missing Info fields produces, and
  \<^verbatim>\<open>OverflowError\<close> otherwise.
\<close>

theorem compute_statistics_zero_division:
  assumes "nb_vertices info = IntV V" "nb_edges info = IntV E" "nb_faces info = IntV F"
    "nb_elements info = IntV C"
    and "V = 0 \<or> E = 0 \<or> F = 0"
  shows "(compute_statistics (Some info) locations_chars = Inl ZeroDivisionError \<or>
          compute_statistics (Some info) locations_chars = Inl OverflowError) \<and>
         (V = 0 \<or> (within_float_range (2 * E) V \<and> within_float_range F V \<and>
                    within_float_range (4 * C) V) \<longrightarrow>
            compute_statistics (Some info) locations_chars = Inl ZeroDivisionError) \<and>
         (V \<noteq> 0 \<and> \<not> (within_float_range (2 * E) V \<and> within_float_range F V \<and>
                        within_float_range (4 * C) V) \<longrightarrow>
            compute_statistics (Some info) locations_chars = Inl OverflowError)"
proof -
  have z: "within_float_range F E" if "F = 0" "E \<noteq> 0"
    using that by (simp add: within_float_range_zero)
  show ?thesis
    unfolding compute_statistics_ints[OF assms(1-4), of locations_chars]
    using assms(5) z by auto
qed

lemma parse_info_block_defaults:
  "fst (parse_info_block False True [(''regions'', ListV []), (''materials'', ListV [])] fresh_diagnostics)
     = Inr defaulted_info"
  by (simp add: parse_info_block_def required_fields_def dict_keys_def defaults_def dict_get_def
      check_nb_vertices_def check_dimension_def build_info_def make_InfoBlock_def info_fields_def
      defaulted_info_def Let_def)

theorem compute_statistics_zero_division_witness:
  "fst (parse_info_block False True [(''regions'', ListV []), (''materials'', ListV [])]
          fresh_diagnostics) = Inr defaulted_info \<and>
   nb_vertices defaulted_info = IntV 0 \<and>
   compute_statistics (Some defaulted_info) [] = Inl ZeroDivisionError"
  using compute_statistics_zero_division[of defaulted_info 0 0 0 0 "[]"] parse_info_block_defaults
  by (simp add: defaulted_info_def)

text \<open>
  The claim as first stated has \<^verbatim>\<open>ZeroDivisionError\<close> for every block with a zero count.
  With one vertex, no edge and \<open>10^400\<close> faces the ratio of faces to vertices is outside the
  float range and raises \<^verbatim>\<open>OverflowError\<close> before the division by the edge count is
  reached.
\<close>

theorem compute_statistics_overflow_before_zero_division:
  "nb_edges huge_face_info = IntV 0 \<and>
   compute_statistics (Some huge_face_info) [] = Inl OverflowError"
proof -
  have c: "nb_vertices huge_face_info = IntV 1" "nb_edges huge_face_info = IntV 0"
    "nb_faces huge_face_info = IntV (10 ^ 400)" "nb_elements huge_face_info = IntV 1"
    by (simp_all add: huge_face_info_def)
  have "\<not> within_float_range (10 ^ 400) 1"
    by (simp add: within_float_range_def float_overflow_bound_def)
  then show ?thesis
    using c(2) by (simp add: compute_statistics_ints[OF c])
qed

subsection \<open>Region coverage\<close>

lemma regions_loop_skip:
  assumes "match_region_header (strip line) = None"
    "\<not> contains (strip line) ''material =''" "\<not> contains (strip line) ''Elements (''"
    "strip line \<noteq> ''}''"
  shows "regions_loop (line # rest) nb_total in_region current_region regs =
           regions_loop rest nb_total in_region current_region regs"
  using assms by simp

lemma regions_loop_remove_line:
  assumes "match_region_header (strip line) = None"
    "\<not> contains (strip line) ''material =''" "\<not> contains (strip line) ''Elements (''"
    "strip line \<noteq> ''}''"
  shows "regions_loop (pre @ line # rest) nb_total in_region current_region regs =
           regions_loop (pre @ rest) nb_total in_region current_region regs"
proof (induction pre arbitrary: in_region current_region regs)
  case Nil
  show ?case by (simp only: append_Nil regions_loop_skip[OF assms])
next
  case (Cons l pre)
  show ?case
    unfolding append_Cons regions_loop.simps(2) Cons.IH ..
qed

lemma validate_consistency_sum:
  "validate_consistency (Some info) regs element_types face_types locations_chars =
     Inr r \<Longrightarrow>
   regions_sum_correct r =
     (nb_elements info = IntV (sum_list (map (\<lambda>(region_name, region). element_count region) regs)))"
proof -
  have "map element_count (dict_values regs) =
        map (\<lambda>(region_name, region). element_count region) regs"
    by (simp add: dict_values_def case_prod_unfold)
  then show "validate_consistency (Some info) regs element_types face_types locations_chars =
     Inr r \<Longrightarrow> ?thesis"
    by (auto simp: validate_consistency_def int_eq_value_def Let_def)
qed

text \<open>
  C3 (amended). The validator does not examine the regions' element-index lists. It reports
  \<^verbatim>\<open>regions_sum_correct\<close> as true exactly when the sum of the declared element counts of
  the regions stored by \<^verbatim>\<open>parse_regions\<close> equals the declared total element count, and a
  line of a region's element-index list (a line that is no region header, holds neither
  \<^verbatim>\<open>material =\<close> nor \<^verbatim>\<open>Elements (\<close> and is not a closing brace) has no effect on what
  \<^verbatim>\<open>parse_regions\<close> stores: the file without that line gives the same verdict.
\<close>

theorem validate_consistency_regions_sum:
  assumes "match_region_header (strip line) = None"
    "\<not> contains (strip line) ''material =''" "\<not> contains (strip line) ''Elements (''"
    "strip line \<noteq> ''}''"
    and "parse_regions (pre @ line # rest) info = Inr regs"
  shows "parse_regions (pre @ rest) info = Inr regs \<and>
         (\<exists>r. validate_consistency (Some info) regs element_types face_types locations_chars
                = Inr r \<and>
              regions_sum_correct r =
                (nb_elements info =
                   IntV (sum_list (map (\<lambda>(region_name, region). element_count region) regs))))"
proof -
  have "parse_regions (pre @ rest) info = Inr regs"
    using regions_loop_remove_line[OF assms(1-4)] assms(5) by (simp add: parse_regions_def)
  moreover obtain r where
    r: "validate_consistency (Some info) regs element_types face_types locations_chars = Inr r"
    by (simp add: validate_consistency_def Let_def)
  ultimately show ?thesis
    using validate_consistency_sum[OF r] by blast
qed

text \<open>
  Removing the index line of region \<open>A\<close> from the file with the two overlapping regions
  leaves the stored regions, and with them the verdict, as they were.
\<close>

theorem validate_consistency_regions_sum_witness:
  "match_region_header (strip ''    0'') = None \<and>
   \<not> contains (strip ''    0'') ''material ='' \<and>
   \<not> contains (strip ''    0'') ''Elements ('' \<and>
   strip ''    0'' \<noteq> ''}'' \<and>
   overlap_file = take 3 overlap_file @ ''    0'' # drop 4 overlap_file \<and>
   parse_regions overlap_file overlap_info = Inr overlap_regions \<and>
   parse_regions (take 3 overlap_file @ drop 4 overlap_file) overlap_info = Inr overlap_regions \<and>
   (\<exists>r. validate_consistency (Some overlap_info) overlap_regions [(5, 2)] [(3, 7)]
           [(CHR ''i'', 1), (CHR ''e'', 6)] = Inr r \<and>
         regions_sum_correct r = True)"
proof -
  have l: "match_region_header (strip ''    0'') = None"
    "\<not> contains (strip ''    0'') ''material =''"
    "\<not> contains (strip ''    0'') ''Elements (''"
    "strip ''    0'' \<noteq> ''}''"
    by code_simp+
  have f: "overlap_file = take 3 overlap_file @ ''    0'' # drop 4 overlap_file"
    by (simp add: overlap_file_def)
  have p: "parse_regions overlap_file overlap_info = Inr overlap_regions"
    by code_simp
  have p': "parse_regions (take 3 overlap_file @ ''    0'' # drop 4 overlap_file) overlap_info =
              Inr overlap_regions"
    using p f by simp
  have s: "nb_elements overlap_info =
             IntV (sum_list (map (\<lambda>(region_name, region). element_count region) overlap_regions))"
    by (simp add: overlap_info_def overlap_regions_def)
  from validate_consistency_regions_sum[OF l p', of "[(5, 2)]" "[(3, 7)]"
      "[(CHR ''i'', 1), (CHR ''e'', 6)]"] s
  show ?thesis using l f p by auto
qed

text \<open>
  The claim as first stated fails on a file with two regions that both list element 0 of a
  two-element mesh: the union of the lists misses element 1 and repeats element 0, yet the
  declared counts add up and the validator reports true.
\<close>

theorem validate_consistency_misses_overlap:
  "parse_regions overlap_file overlap_info = Inr overlap_regions \<and>
   parse_region_elements overlap_file = overlap_region_elements \<and>
   \<not> spec_region_coverage overlap_region_elements 2 \<and>
   validate_consistency (Some overlap_info) overlap_regions [(5, 2)] [(3, 7)]
       [(CHR ''i'', 1), (CHR ''e'', 6)] =
     Inr \<lparr>regions_sum_correct = True, all_elements_type_5 = True, all_faces_type_3 = True,
          locations_count_correct = True, regions_count_correct = True\<rparr>"
proof -
  have r: "parse_regions overlap_file overlap_info = Inr overlap_regions"
    by code_simp
  have e: "parse_region_elements overlap_file = overlap_region_elements"
    by code_simp
  have "sort (concat (dict_values overlap_region_elements)) = [0, 0]"
    by (simp add: overlap_region_elements_def dict_values_def)
  moreover have "[0 .. 2 - 1] = [0, 1 :: int]"
    by (simp add: upto.simps)
  ultimately have c: "\<not> spec_region_coverage overlap_region_elements 2"
    by (simp add: spec_region_coverage_def)
  have v: "validate_consistency (Some overlap_info) overlap_regions [(5, 2)] [(3, 7)]
       [(CHR ''i'', 1), (CHR ''e'', 6)] =
     Inr \<lparr>regions_sum_correct = True, all_elements_type_5 = True, all_faces_type_3 = True,
          locations_count_correct = True, regions_count_correct = True\<rparr>"
    by (simp add: dict_values_def dict_get_def validate_consistency_def single_type_def
        overlap_info_def overlap_regions_def int_eq_value_def Let_def)
  show ?thesis using r e c v by blast
qed

subsection \<open>Strict mode\<close>

text \<open>
  C7, evaluated on a well-formed single-tetrahedron file whose Info block declares
  \<^verbatim>\<open>dimension = 4\<close>, in strict mode: the warning about the unusual dimension is
  recorded, \<^verbatim>\<open>parse_info_block\<close> returns the Info block and \<^verbatim>\<open>parse_all\<close> returns
  the Info block and the statistics.
\<close>

theorem parse_all_strict_keeps_warning:
  "parse_info_block True True tetra_dim4_dict fresh_diagnostics =
     (Inr tetra_dim4_info,
      \<lparr>parse_warnings = [(None, UnusualDimension (IntV 4))], parse_errors = [],
       parse_status = WARNING\<rparr>) \<and>
   (\<exists>stats. parse_all True True tetra_dim4_dict quiet_sections [(CHR ''e'', 4)]
             fresh_diagnostics =
     (Inr (Some tetra_dim4_info, Some stats),
      \<lparr>parse_warnings = [(None, UnusualDimension (IntV 4))], parse_errors = [],
       parse_status = WARNING\<rparr>))"
proof -
  have p: "parse_info_block True True tetra_dim4_dict fresh_diagnostics =
     (Inr tetra_dim4_info,
      \<lparr>parse_warnings = [(None, UnusualDimension (IntV 4))], parse_errors = [],
       parse_status = WARNING\<rparr>)"
    by (simp add: parse_info_block_def required_fields_def dict_keys_def dict_get_def
      check_nb_vertices_def check_dimension_def build_info_def make_InfoBlock_def info_fields_def
      tetra_dim4_dict_def tetra_dim4_info_def fresh_diagnostics_def add_warning_def
      line_prefix_def Let_def)
  have s: "run_sections True quiet_sections st = (None, st)" for st
    by (simp add: quiet_sections_def quiet_section_def)
  have c: "\<exists>stats. compute_statistics (Some tetra_dim4_info) [(CHR ''e'', 4)] = Inr stats"
  proof -
    have r: "within_float_range (2 * 6) 4" "within_float_range 4 4" "within_float_range (4 * 1) 4"
      "within_float_range 4 6" "within_float_range 1 4"
      by (rule within_float_range_small; simp)+
    have n: "nb_vertices tetra_dim4_info = IntV 4" "nb_edges tetra_dim4_info = IntV 6"
      "nb_faces tetra_dim4_info = IntV 4" "nb_elements tetra_dim4_info = IntV 1"
      by (simp_all add: tetra_dim4_info_def)
    show ?thesis
      using r by (simp add: compute_statistics_ints[OF n])
  qed
  then obtain stats where "compute_statistics (Some tetra_dim4_info) [(CHR ''e'', 4)] = Inr stats"
    by blast
  then have "parse_all True True tetra_dim4_dict quiet_sections [(CHR ''e'', 4)]
             fresh_diagnostics =
     (Inr (Some tetra_dim4_info, Some stats),
      \<lparr>parse_warnings = [(None, UnusualDimension (IntV 4))], parse_errors = [],
       parse_status = WARNING\<rparr>)"
    by (simp add: parse_all_def p s)
  with p show ?thesis by blast
qed

subsection \<open>Card ids of the export\<close>

lemma ids_of_Nil [simp]: "ids_of kind [] = []"
  by (simp add: ids_of_def map_filter_simps)

lemma ids_of_Cons [simp]:
  "ids_of kind (c # cards) =
     (case kind c of None \<Rightarrow> ids_of kind cards | Some i \<Rightarrow> i # ids_of kind cards)"
  by (simp add: ids_of_def map_filter_simps split: option.splits)

lemma ids_of_append [simp]: "ids_of kind (xs @ ys) = ids_of kind xs @ ids_of kind ys"
  by (induction xs) (auto split: option.splits)

lemma upto_snoc: "a \<le> b + 1 \<Longrightarrow> [a .. b] @ [b + 1] = [a .. b + 1]"
  using upto_rec2[of a "b + 1"] by simp

lemma upto_cons: "a \<le> b \<Longrightarrow> a # [a + 1 .. b] = [a .. b]"
  using upto_rec1[of a b] by simp

lemma grid_cards_ids:
  "ids_of grid_id (grid_cards i vs) = [int i + 1 .. int i + int (length vs)] \<and>
   ids_of mat1_id (grid_cards i vs) = [] \<and> ids_of psolid_id (grid_cards i vs) = [] \<and>
   ids_of ctetra_id (grid_cards i vs) = [] \<and> ids_of ctria3_id (grid_cards i vs) = []"
proof (induction vs arbitrary: i)
  case Nil
  then show ?case by simp
next
  case (Cons v vs)
  obtain x y z where v: "v = (x, y, z)" by (cases v) auto
  have "(int i + 1) # [int (Suc i) + 1 .. int (Suc i) + int (length vs)] =
        [int i + 1 .. int i + int (length (v # vs))]"
    using upto_cons[of "int i + 1" "int i + int (length (v # vs))"] by (simp add: add.commute add.left_commute)
  then show ?case using Cons[of "Suc i"] by (simp add: v)
qed

lemma dict_set_fresh: "k \<notin> set (dict_keys d) \<Longrightarrow> dict_set k v d = d @ [(k, v)]"
  by (induction d) (auto simp: dict_keys_def)

lemma assign_mids_values:
  assumes "map snd m = [1 .. c - 1]" "1 \<le> c"
  shows "\<exists>c'. c \<le> c' \<and> map snd (assign_mids regs m c) = [1 .. c' - 1]"
  using assms
proof (induction regs arbitrary: m c)
  case Nil
  then show ?case by auto
next
  case (Cons r regs)
  obtain region_name region_info where r: "r = (region_name, region_info)" by (cases r) auto
  show ?case
  proof (cases "material region_info \<in> set (dict_keys m)")
    case True
    then show ?thesis using Cons.IH[OF Cons.prems] by (simp add: r)
  next
    case False
    have "map snd (dict_set (material region_info) c m) = [1 .. c - 1] @ [c]"
      using False Cons.prems by (simp add: dict_set_fresh)
    also have "\<dots> = [1 .. (c + 1) - 1]"
      using upto_snoc[of 1 "c - 1"] Cons.prems(2) by simp
    finally have m': "map snd (dict_set (material region_info) c m) = [1 .. (c + 1) - 1]" .
    from Cons.IH[OF m'] Cons.prems(2)
    obtain c' where "c + 1 \<le> c'"
      "map snd (assign_mids regs (dict_set (material region_info) c m) (c + 1)) = [1 .. c' - 1]"
      by auto
    then show ?thesis using False by (auto simp: r intro!: exI[of _ c'])
  qed
qed

lemma mat1_map_ids:
  "ids_of mat1_id (map (\<lambda>(mat, mid). MAT1 mid E nu rho) xs) = map snd xs \<and>
   ids_of grid_id (map (\<lambda>(mat, mid). MAT1 mid E nu rho) xs) = [] \<and>
   ids_of psolid_id (map (\<lambda>(mat, mid). MAT1 mid E nu rho) xs) = [] \<and>
   ids_of ctetra_id (map (\<lambda>(mat, mid). MAT1 mid E nu rho) xs) = [] \<and>
   ids_of ctria3_id (map (\<lambda>(mat, mid). MAT1 mid E nu rho) xs) = []"
  by (induction xs) (auto split: prod.splits)


lemma case_four:
  "(case xs of [n1, n2, n3, n4] \<Rightarrow> f n1 n2 n3 n4 | _ \<Rightarrow> d) =
     (if length xs = 4 then f (xs ! 0) (xs ! 1) (xs ! 2) (xs ! 3) else d)"
  by (auto split: list.splits)

lemma case_three:
  "(case xs of [n1, n2, n3] \<Rightarrow> f n1 n2 n3 | _ \<Rightarrow> d) =
     (if length xs = 3 then f (xs ! 0) (xs ! 1) (xs ! 2) else d)"
  by (auto split: list.splits)

lemma ctetra_cards_ids:
  "ctetra_cards e2r r2p idx c els = Inr (cards, c') \<Longrightarrow>
     c \<le> c' \<and> ids_of ctetra_id cards = [c .. c' - 1] \<and> ids_of grid_id cards = [] \<and>
     ids_of mat1_id cards = [] \<and> ids_of psolid_id cards = [] \<and> ids_of ctria3_id cards = []"
proof (induction els arbitrary: idx c cards)
  case Nil
  then show ?case by auto
next
  case (Cons elem_verts rest)
  let ?pid = "case e2r idx of None \<Rightarrow> None
              | Some region_name \<Rightarrow> if region_name \<noteq> [] then dict_get r2p region_name else None"
  show ?case
  proof (cases ?pid)
    case None
    then have eq: "ctetra_cards e2r r2p idx c (elem_verts # rest) =
                     ctetra_cards e2r r2p (idx + 1) c rest"
      by (auto split: option.splits if_splits)
    have "ctetra_cards e2r r2p (idx + 1) c rest = Inr (cards, c')"
      using Cons.prems unfolding eq .
    from Cons.IH[OF this] show ?thesis .
  next
    case (Some pid)
    let ?ns = "map (\<lambda>v. v + 1) elem_verts"
    have step: "ctetra_cards e2r r2p idx c (elem_verts # rest) =
            (if length ?ns = 4 then
               (case ctetra_cards e2r r2p (idx + 1) (c + 1) rest of
                  Inl e \<Rightarrow> Inl e
                | Inr (cs, final_eid) \<Rightarrow>
                    Inr (CTETRA c pid (?ns ! 0) (?ns ! 1) (?ns ! 2) (?ns ! 3) # cs, final_eid))
             else Inl RuntimeError)"
      using Some unfolding ctetra_cards.simps(2) case_four
      by (auto split: option.splits if_splits simp del: ctetra_cards.simps)
    have "(if length ?ns = 4 then
               (case ctetra_cards e2r r2p (idx + 1) (c + 1) rest of
                  Inl e \<Rightarrow> Inl e
                | Inr (cs, final_eid) \<Rightarrow>
                    Inr (CTETRA c pid (?ns ! 0) (?ns ! 1) (?ns ! 2) (?ns ! 3) # cs, final_eid))
             else Inl RuntimeError) = Inr (cards, c')"
      using Cons.prems unfolding step .
    then obtain cs where
      rec: "ctetra_cards e2r r2p (idx + 1) (c + 1) rest = Inr (cs, c')"
      and cards: "cards = CTETRA c pid (?ns ! 0) (?ns ! 1) (?ns ! 2) (?ns ! 3) # cs"
      by (auto split: if_splits sum.splits simp del: ctetra_cards.simps)
    from Cons.IH[OF rec] have ih: "c + 1 \<le> c'" "ids_of ctetra_id cs = [c + 1 .. c' - 1]"
      "ids_of grid_id cs = []" "ids_of mat1_id cs = []" "ids_of psolid_id cs = []"
      "ids_of ctria3_id cs = []"
      by auto
    have "c # [c + 1 .. c' - 1] = [c .. c' - 1]"
      using upto_cons[of c "c' - 1"] ih(1) by simp
    then show ?thesis using ih by (simp add: cards)
  qed
qed

lemma ctria3_cards_ids:
  "ctria3_cards fav c bs = Inr cards \<Longrightarrow>
     ids_of ctria3_id cards = [c .. c + int (length bs) - 1] \<and> ids_of grid_id cards = [] \<and>
     ids_of mat1_id cards = [] \<and> ids_of psolid_id cards = [] \<and> ids_of ctetra_id cards = []"
proof (induction bs arbitrary: c cards)
  case Nil
  then show ?case by auto
next
  case (Cons face_idx rest)
  from Cons.prems obtain face_verts where
    fv: "list_item fav (int face_idx) = Inr face_verts"
    by (auto split: sum.splits)
  let ?ns = "map (\<lambda>v. v + 1) face_verts"
  have step: "ctria3_cards fav c (face_idx # rest) =
            (if length ?ns = 3 then
               (case ctria3_cards fav (c + 1) rest of
                  Inl e \<Rightarrow> Inl e
                | Inr cs \<Rightarrow> Inr (CTRIA3 c 1 (?ns ! 0) (?ns ! 1) (?ns ! 2) # cs))
             else Inl RuntimeError)"
    unfolding ctria3_cards.simps(2) case_three by (simp add: fv del: ctria3_cards.simps)
  have "(if length ?ns = 3 then
               (case ctria3_cards fav (c + 1) rest of
                  Inl e \<Rightarrow> Inl e
                | Inr cs \<Rightarrow> Inr (CTRIA3 c 1 (?ns ! 0) (?ns ! 1) (?ns ! 2) # cs))
             else Inl RuntimeError) = Inr cards"
    using Cons.prems unfolding step .
  then obtain cs where
    rec: "ctria3_cards fav (c + 1) rest = Inr cs"
    and cards: "cards = CTRIA3 c 1 (?ns ! 0) (?ns ! 1) (?ns ! 2) # cs"
    by (auto split: if_splits sum.splits simp del: ctria3_cards.simps)
  from Cons.IH[OF rec] have ih: "ids_of ctria3_id cs = [c + 1 .. c + 1 + int (length rest) - 1]"
    "ids_of grid_id cs = []" "ids_of mat1_id cs = []" "ids_of psolid_id cs = []"
    "ids_of ctetra_id cs = []"
    by auto
  have "c # [c + 1 .. c + 1 + int (length rest) - 1] = [c .. c + int (length (face_idx # rest)) - 1]"
    using upto_cons[of c "c + int (length (face_idx # rest)) - 1"] by (simp add: add.commute add.left_commute)
  then show ?case using ih by (simp add: cards)
qed

lemma psolid_cards_ids:
  "psolid_cards regs m2m r2p ns = Inr cards \<Longrightarrow>
     ids_of psolid_id cards =
       map (\<lambda>n. the (dict_get r2p n)) (filter (\<lambda>n. dict_get regs n \<noteq> None) ns) \<and>
     ids_of grid_id cards = [] \<and> ids_of mat1_id cards = [] \<and>
     ids_of ctetra_id cards = [] \<and> ids_of ctria3_id cards = []"
proof (induction ns arbitrary: cards)
  case Nil
  then show ?case by auto
next
  case (Cons n ns)
  from Cons.prems obtain pid where pid: "dict_get r2p n = Some pid"
    by (auto split: option.splits)
  show ?case
  proof (cases "dict_get regs n")
    case None
    with Cons.prems pid have "psolid_cards regs m2m r2p ns = Inr cards" by simp
    from Cons.IH[OF this] None show ?thesis by simp
  next
    case (Some region_info)
    with Cons.prems pid obtain mid cs where
      rec: "psolid_cards regs m2m r2p ns = Inr cs" and cards: "cards = PSOLID pid mid n # cs"
      by (auto split: option.splits sum.splits)
    from Cons.IH[OF rec] Some pid show ?thesis by (simp add: cards)
  qed
qed

lemma assign_pids_zip:
  "distinct ns \<Longrightarrow> set ns \<inter> set (dict_keys m) = {} \<Longrightarrow>
   assign_pids ns m c = m @ zip ns [c .. c + int (length ns) - 1]"
proof (induction ns arbitrary: m c)
  case Nil
  then show ?case by simp
next
  case (Cons n ns)
  have fresh: "n \<notin> set (dict_keys m)" using Cons.prems by auto
  have d: "distinct ns" using Cons.prems by simp
  have k: "set ns \<inter> set (dict_keys (m @ [(n, c)])) = {}"
    using Cons.prems by (auto simp: dict_keys_def)
  have u: "[c .. c + int (length ns)] = c # [c + 1 .. c + int (length ns)]"
    using upto_rec1[of c "c + int (length ns)"] by simp
  show ?case
    using Cons.IH[OF d k, of "c + 1"] by (simp add: dict_set_fresh[OF fresh] u)
qed

lemma length_upto_int: "length [a .. a + int k - 1] = k"
  by simp


lemma assign_pids_sorted_names:
  assumes "distinct names"
  shows "assign_pids names [] 1 = zip names [1 .. int (length names)]"
  using assign_pids_zip[OF assms, of "[]" 1] by (simp add: dict_keys_def)

lemma pid_of_name:
  assumes "distinct names" "i < length names"
  shows "dict_get (zip names [1 .. int (length names)]) (names ! i) = Some (int i + 1)"
proof -
  have "map_of (zip names [1 .. int (length names)]) (names ! i) = Some ([1 .. int (length names)] ! i)"
    using assms by (intro map_of_zip_nth) simp_all
  moreover have "[1 .. int (length names)] ! i = 1 + int i"
    using assms(2) by (intro nth_upto) simp
  ultimately show ?thesis by (simp add: dict_get_def)
qed

lemma psolid_ids_by_position:
  assumes "distinct names"
  shows "map (\<lambda>n. the (dict_get (zip names [1 .. int (length names)]) n))
             (filter (\<lambda>n. dict_get regs n \<noteq> None) names) =
         map (\<lambda>i. int i + 1)
             (filter (\<lambda>i. dict_get regs (names ! i) \<noteq> None) [0 ..< length names])"
proof -
  let ?g = "\<lambda>n. the (dict_get (zip names [1 .. int (length names)]) n)"
  let ?P = "\<lambda>n. dict_get regs n \<noteq> None"
  have "map ?g (filter ?P names) =
        map ?g (filter ?P (map (\<lambda>i. names ! i) [0 ..< length names]))"
    by (simp only: map_nth)
  also have "\<dots> = map (\<lambda>i. ?g (names ! i)) (filter (\<lambda>i. ?P (names ! i)) [0 ..< length names])"
    by (simp add: filter_map comp_def)
  also have "\<dots> = map (\<lambda>i. int i + 1) (filter (\<lambda>i. ?P (names ! i)) [0 ..< length names])"
    by (rule map_cong) (auto simp: pid_of_name[OF assms])
  finally show ?thesis .
qed

lemma upto_by_length: "1 \<le> c \<Longrightarrow> xs = [1 .. c - 1] \<Longrightarrow> xs = [1 .. int (length xs)]"
  by simp

lemma write_cards_ids:
  assumes w: "write_cards mesh include_surfaces E nu rho fav eav = Inr cards"
    and d: "distinct (dict_keys (mesh_region_elements mesh))"
  shows "ids_of grid_id cards = [1 .. int (length (mesh_vertices mesh))] \<and>
         ids_of mat1_id cards = [1 .. int (length (ids_of mat1_id cards))] \<and>
         ids_of psolid_id cards =
           map (\<lambda>i. int i + 1)
             (filter (\<lambda>i. dict_get (mesh_regions mesh)
                            (sort (dict_keys (mesh_region_elements mesh)) ! i) \<noteq> None)
                [0 ..< length (mesh_region_elements mesh)]) \<and>
         ids_of ctetra_id cards = [1 .. int (length (ids_of ctetra_id cards))] \<and>
         ids_of ctria3_id cards =
           [int (length (ids_of ctetra_id cards)) + 1 ..
            int (length (ids_of ctetra_id cards)) + int (length (ids_of ctria3_id cards))]"
proof -
  let ?names = "sort (dict_keys (mesh_region_elements mesh))"
  let ?r2p = "assign_pids ?names [] 1"
  let ?m2m = "assign_mids (mesh_regions mesh) [] 1"
  let ?e2r = "build_element_to_region (mesh_region_elements mesh) Map.empty"
  let ?bf = "boundary_faces_of include_surfaces (mesh_locations mesh) fav"
  have dn: "distinct ?names" using d by simp
  have ln: "length ?names = length (mesh_region_elements mesh)" by (simp add: dict_keys_def)
  have r2p: "?r2p = zip ?names [1 .. int (length ?names)]"
    by (rule assign_pids_sorted_names[OF dn])
  have "sorted (map snd (zip ?names [1 .. int (length ?names)]))" by simp
  then have sk: "sort_key snd ?r2p = zip ?names [1 .. int (length ?names)]"
    unfolding r2p by (rule sort_key_id_if_sorted)
  have order: "map fst (sort_key snd ?r2p) = ?names"
    unfolding sk by simp
  from w obtain psolids ctetras eid_counter ctria3s where
    p: "psolid_cards (mesh_regions mesh) ?m2m ?r2p ?names = Inr psolids"
    and t: "ctetra_cards ?e2r ?r2p 0 1 eav = Inr (ctetras, eid_counter)"
    and s: "ctria3_cards fav eid_counter ?bf = Inr ctria3s"
    and cards: "cards = grid_cards 0 (mesh_vertices mesh) @ mat1_cards ?m2m E nu rho @
                  psolids @ ctetras @ ctria3s"
    unfolding write_cards_def Let_def order
    by (auto split: sum.splits prod.splits)
  note g = grid_cards_ids[of 0 "mesh_vertices mesh"]
  note m = mat1_map_ids[of E nu rho "sort_key snd ?m2m"]
  note pi = psolid_cards_ids[OF p]
  note ti = ctetra_cards_ids[OF t]
  note si = ctria3_cards_ids[OF s]
  from assign_mids_values[of "[]" 1 "mesh_regions mesh"]
  obtain c' where c': "1 \<le> c'" "map snd ?m2m = [1 .. c' - 1]" by auto
  then have "sorted (map snd ?m2m)" by simp
  then have skm: "sort_key snd ?m2m = ?m2m" by (rule sort_key_id_if_sorted)
  have mat: "ids_of mat1_id cards = [1 .. c' - 1]"
    using g m pi ti si c'(2) by (simp add: cards mat1_cards_def skm)
  have tet: "ids_of ctetra_id cards = [1 .. eid_counter - 1]"
    using g m pi ti si by (simp add: cards mat1_cards_def)
  have tlen: "int (length (ids_of ctetra_id cards)) = eid_counter - 1"
    using ti unfolding tet by simp
  have tri: "ids_of ctria3_id cards = [eid_counter .. eid_counter + int (length ?bf) - 1]"
    using g m pi ti si by (simp add: cards mat1_cards_def)
  have trilen: "int (length (ids_of ctria3_id cards)) = int (length ?bf)"
    unfolding tri by simp
  have "ids_of psolid_id cards = ids_of psolid_id psolids"
    using g m ti si by (simp add: cards mat1_cards_def)
  also have "\<dots> = map (\<lambda>n. the (dict_get (zip ?names [1 .. int (length ?names)]) n))
                     (filter (\<lambda>n. dict_get (mesh_regions mesh) n \<noteq> None) ?names)"
    using pi unfolding r2p by blast
  also have "\<dots> = map (\<lambda>i. int i + 1)
             (filter (\<lambda>i. dict_get (mesh_regions mesh) (?names ! i) \<noteq> None)
                [0 ..< length ?names])"
    by (rule psolid_ids_by_position[OF dn])
  finally have pso: "ids_of psolid_id cards =
           map (\<lambda>i. int i + 1)
             (filter (\<lambda>i. dict_get (mesh_regions mesh) (?names ! i) \<noteq> None)
                [0 ..< length (mesh_region_elements mesh)])"
    unfolding ln .
  have grd: "ids_of grid_id cards = [1 .. int (length (mesh_vertices mesh))]"
    using g m pi ti si by (simp add: cards mat1_cards_def)
  have mat': "ids_of mat1_id cards = [1 .. int (length (ids_of mat1_id cards))]"
    by (rule upto_by_length[OF c'(1) mat])
  have tet': "ids_of ctetra_id cards = [1 .. int (length (ids_of ctetra_id cards))]"
    using tet tlen by simp
  have tri': "ids_of ctria3_id cards =
           [int (length (ids_of ctetra_id cards)) + 1 ..
            int (length (ids_of ctetra_id cards)) + int (length (ids_of ctria3_id cards))]"
  proof -
    have e: "eid_counter + int (length ?bf) - 1 = eid_counter - 1 + int (length ?bf)"
      by linarith
    have e2: "eid_counter - 1 + 1 = eid_counter" by simp
    show ?thesis unfolding trilen tlen e2 using tri unfolding e .
  qed
  show ?thesis using grd mat' pso tet' tri' by blast
qed

text \<open>
  C6 (amended). In the exported NAS cards the ids are 1-based. GRID node ids, MAT1 material
  ids and CTETRA element ids each run 1, 2, 3, ... within their own kind. PSOLID property ids
  are the 1-based positions of the regions in the sorted list of region names, emitted in
  ascending order and only for a region that has a stored region record. CTRIA3 ids continue
  the CTETRA numbering: with \<open>T\<close> CTETRA cards they are \<open>T + 1, T + 2, ...\<close>.
\<close>

theorem export_to_nas_ids:
  assumes "export_to_nas list_of mesh include_surfaces E nu rho st = (Inr cards, st')"
    and "distinct (dict_keys (mesh_region_elements mesh))"
  shows "ids_of grid_id cards = [1 .. int (length (mesh_vertices mesh))] \<and>
         ids_of mat1_id cards = [1 .. int (length (ids_of mat1_id cards))] \<and>
         ids_of psolid_id cards =
           map (\<lambda>i. int i + 1)
             (filter (\<lambda>i. dict_get (mesh_regions mesh)
                            (sort (dict_keys (mesh_region_elements mesh)) ! i) \<noteq> None)
                [0 ..< length (mesh_region_elements mesh)]) \<and>
         ids_of ctetra_id cards = [1 .. int (length (ids_of ctetra_id cards))] \<and>
         ids_of ctria3_id cards =
           [int (length (ids_of ctetra_id cards)) + 1 ..
            int (length (ids_of ctetra_id cards)) + int (length (ids_of ctria3_id cards))]"
proof -
  from assms(1) obtain fav eav where
    "write_cards mesh include_surfaces E nu rho fav eav = Inr cards"
    unfolding export_to_nas_def by (auto split: if_splits prod.splits)
  from write_cards_ids[OF this assms(2)] show ?thesis .
qed

lemma export_tetra_mesh:
  "export_to_nas sorted_list_of_set tetra_mesh True 210 3 0 fresh_diagnostics =
     (Inr tetra_cards, fresh_diagnostics)"
  by code_simp

theorem export_to_nas_ids_witness:
  "export_to_nas sorted_list_of_set tetra_mesh True 210 3 0 fresh_diagnostics =
     (Inr tetra_cards, fresh_diagnostics) \<and>
   distinct (dict_keys (mesh_region_elements tetra_mesh)) \<and>
   ids_of grid_id tetra_cards = [1, 2, 3, 4] \<and>
   ids_of mat1_id tetra_cards = [1] \<and>
   ids_of psolid_id tetra_cards = [1] \<and>
   ids_of ctetra_id tetra_cards = [1] \<and>
   ids_of ctria3_id tetra_cards = [2, 3, 4, 5]"
proof -
  have d: "distinct (dict_keys (mesh_region_elements tetra_mesh))"
    by (simp add: tetra_mesh_def dict_keys_def)
  have l: "length (mesh_vertices tetra_mesh) = 4"
    "length (ids_of mat1_id tetra_cards) = 1"
    "length (ids_of ctetra_id tetra_cards) = 1"
    "length (ids_of ctria3_id tetra_cards) = 4"
    by (simp_all add: tetra_mesh_def tetra_cards_def)
  have p: "ids_of psolid_id tetra_cards = [1]"
    by (simp add: tetra_cards_def)
  have u: "[1 .. 4] = [1, 2, 3, 4 :: int]" "[1 .. 1] = [1 :: int]" "[1 + 1 .. 1 + 4] = [2, 3, 4, 5 :: int]"
    by (simp_all add: upto.simps)
  from export_to_nas_ids[OF export_tetra_mesh d]
  show ?thesis
    using export_tetra_mesh d p by (simp add: l u)
qed

text \<open>
  The claim as first stated has every kind start at 1. With surfaces included, the four CTRIA3
  cards of the single tetrahedron carry the ids 2 to 5, after the one CTETRA card; and with a
  region that has no stored record sorting first, the only PSOLID card has the id 2.
\<close>

theorem export_to_nas_shared_element_counter:
  "fst (export_to_nas sorted_list_of_set tetra_mesh True 210 3 0 fresh_diagnostics) =
     Inr tetra_cards \<and>
   ids_of ctetra_id tetra_cards = [1] \<and>
   ids_of ctria3_id tetra_cards = [2, 3, 4, 5] \<and>
   hd (ids_of ctria3_id tetra_cards) \<noteq> 1 \<and>
   map_sum id (ids_of psolid_id)
     (fst (export_to_nas sorted_list_of_set tetra_mesh_two_regions False 210 3 0
             fresh_diagnostics)) = Inr [2]"
proof -
  have a: "fst (export_to_nas sorted_list_of_set tetra_mesh True 210 3 0 fresh_diagnostics) =
     Inr tetra_cards"
    by code_simp
  have b: "map_sum id (ids_of psolid_id)
     (fst (export_to_nas sorted_list_of_set tetra_mesh_two_regions False 210 3 0
             fresh_diagnostics)) = Inr [2]"
    by code_simp
  show ?thesis using a b by (simp add: tetra_cards_def)
qed

subsection \<open>Short face lines\<close>

lemma decode_face_short:
  "length (face_parts s) < 4 \<Longrightarrow> decode_face s = Inr None"
  by (simp add: decode_face_def Let_def)

lemma faces_loop_skip:
  assumes "\<not> contains (strip line) ''Faces (''" "strip line \<noteq> ''}''"
    "length (face_parts (strip line)) < 4"
  shows "faces_loop (line # rest) in_faces faces_found line_num faces st =
           faces_loop rest in_faces faces_found (line_num + 1) faces st"
  using assms by (simp add: decode_face_short)

lemma same_counts_add_warning:
  "same_counts st st' \<Longrightarrow> same_counts (add_warning m l st) (add_warning m' l' st')"
  by (simp add: same_counts_def add_warning_def)

lemma same_counts_add_error:
  "same_counts st st' \<Longrightarrow> same_counts (add_error m l st) (add_error m' l' st')"
  by (simp add: same_counts_def add_error_def)

lemma faces_loop_header:
  "contains (strip line) ''Faces ('' \<Longrightarrow>
   faces_loop (line # rest) in_faces faces_found n faces st =
     faces_loop rest True True (n + 1) faces st"
  by simp

lemma faces_loop_close:
  "\<not> contains (strip line) ''Faces ('' \<Longrightarrow> in_faces \<Longrightarrow> strip line = ''}'' \<Longrightarrow>
   faces_loop (line # rest) in_faces faces_found n faces st = (faces_found, faces, st)"
  by simp

lemma faces_loop_other:
  "\<not> contains (strip line) ''Faces ('' \<Longrightarrow> \<not> (in_faces \<and> strip line = ''}'') \<Longrightarrow>
   \<not> (in_faces \<and> strip line \<noteq> [] \<and> \<not> startswith (strip line) ''}'') \<Longrightarrow>
   faces_loop (line # rest) in_faces faces_found n faces st =
     faces_loop rest in_faces faces_found (n + 1) faces st"
  by (cases in_faces) auto

lemma faces_loop_data:
  "\<not> contains (strip line) ''Faces ('' \<Longrightarrow> \<not> (in_faces \<and> strip line = ''}'') \<Longrightarrow>
   in_faces \<and> strip line \<noteq> [] \<and> \<not> startswith (strip line) ''}'' \<Longrightarrow>
   faces_loop (line # rest) in_faces faces_found n faces st =
     (case decode_face (strip line) of
        Inr (Some face) \<Rightarrow> faces_loop rest in_faces faces_found (n + 1) (faces @ [face]) st
      | Inr None \<Rightarrow> faces_loop rest in_faces faces_found (n + 1) faces st
      | Inl token \<Rightarrow>
          faces_loop rest in_faces faces_found (n + 1) faces
            (add_warning (ErrorParsingFace (n + 1) token) None st))"
proof -
  assume a: "\<not> contains (strip line) ''Faces (''" "\<not> (in_faces \<and> strip line = ''}'')"
    "in_faces \<and> strip line \<noteq> [] \<and> \<not> startswith (strip line) ''}''"
  then have i: "in_faces = True" by simp
  show ?thesis
    using a unfolding i by simp
qed

lemma faces_loop_line_num:
  "same_counts st st' \<Longrightarrow>
   same_result (faces_loop file_lines in_faces faces_found n faces st)
               (faces_loop file_lines in_faces faces_found n' faces st')"
proof (induction file_lines arbitrary: in_faces faces_found n n' faces st st')
  case Nil
  then show ?case by (simp add: same_result_def)
next
  case (Cons line rest)
  note ih = Cons.IH
  consider (header) "contains (strip line) ''Faces (''"
    | (close) "\<not> contains (strip line) ''Faces (''" "in_faces" "strip line = ''}''"
    | (other) "\<not> contains (strip line) ''Faces (''" "\<not> (in_faces \<and> strip line = ''}'')"
        "\<not> (in_faces \<and> strip line \<noteq> [] \<and> \<not> startswith (strip line) ''}'')"
    | (data) "\<not> contains (strip line) ''Faces (''" "\<not> (in_faces \<and> strip line = ''}'')"
        "in_faces \<and> strip line \<noteq> [] \<and> \<not> startswith (strip line) ''}''"
    by blast
  then show ?case
  proof cases
    case header
    show ?thesis
      using ih[OF Cons.prems, of True True "n + 1" faces "n' + 1"]
      by (simp only: append_Cons faces_loop_header[OF header])
  next
    case close
    show ?thesis
      using Cons.prems
      by (simp only: append_Cons faces_loop_close[OF close]) (simp add: same_result_def)
  next
    case other
    show ?thesis
      using ih[OF Cons.prems, of in_faces faces_found "n + 1" faces "n' + 1"]
      by (simp only: append_Cons faces_loop_other[OF other])
  next
    case data
    show ?thesis
    proof (cases "decode_face (strip line)")
      case (Inl token)
      have "same_counts (add_warning (ErrorParsingFace (n + 1) token) None st)
                        (add_warning (ErrorParsingFace (n' + 1) token) None st')"
        by (rule same_counts_add_warning[OF Cons.prems])
      from ih[OF this, of in_faces faces_found "n + 1" faces "n' + 1"] show ?thesis
        by (simp only: append_Cons faces_loop_data[OF data] Inl sum.case)
    next
      case (Inr r)
      show ?thesis
      proof (cases r)
        case None
        show ?thesis
          using ih[OF Cons.prems, of in_faces faces_found "n + 1" faces "n' + 1"]
          by (simp only: append_Cons faces_loop_data[OF data] Inr None sum.case option.case)
      next
        case (Some face)
        show ?thesis
          using ih[OF Cons.prems, of in_faces faces_found "n + 1" "faces @ [face]" "n' + 1"]
          by (simp only: append_Cons faces_loop_data[OF data] Inr Some sum.case option.case)
      qed
    qed
  qed
qed

lemma faces_loop_remove_line:
  assumes bad: "\<not> contains (strip line) ''Faces (''" "strip line \<noteq> ''}''"
    "length (face_parts (strip line)) < 4"
  shows "same_counts st st' \<Longrightarrow>
   same_result (faces_loop (pre @ line # rest) in_faces faces_found n faces st)
               (faces_loop (pre @ rest) in_faces faces_found n' faces st')"
proof (induction pre arbitrary: in_faces faces_found n n' faces st st')
  case Nil
  show ?case
    using faces_loop_line_num[OF Nil, of rest in_faces faces_found "n + 1" faces n']
    by (simp only: append_Nil faces_loop_skip[OF bad])
next
  case (Cons l pre)
  note ih = Cons.IH
  consider (header) "contains (strip l) ''Faces (''"
    | (close) "\<not> contains (strip l) ''Faces (''" "in_faces" "strip l = ''}''"
    | (other) "\<not> contains (strip l) ''Faces (''" "\<not> (in_faces \<and> strip l = ''}'')"
        "\<not> (in_faces \<and> strip l \<noteq> [] \<and> \<not> startswith (strip l) ''}'')"
    | (data) "\<not> contains (strip l) ''Faces (''" "\<not> (in_faces \<and> strip l = ''}'')"
        "in_faces \<and> strip l \<noteq> [] \<and> \<not> startswith (strip l) ''}''"
    by blast
  then show ?case
  proof cases
    case header
    show ?thesis
      using ih[OF Cons.prems, of True True "n + 1" faces "n' + 1"]
      by (simp only: append_Cons faces_loop_header[OF header])
  next
    case close
    show ?thesis
      using Cons.prems
      by (simp only: append_Cons faces_loop_close[OF close]) (simp add: same_result_def)
  next
    case other
    show ?thesis
      using ih[OF Cons.prems, of in_faces faces_found "n + 1" faces "n' + 1"]
      by (simp only: append_Cons faces_loop_other[OF other])
  next
    case data
    show ?thesis
    proof (cases "decode_face (strip l)")
      case (Inl token)
      have "same_counts (add_warning (ErrorParsingFace (n + 1) token) None st)
                        (add_warning (ErrorParsingFace (n' + 1) token) None st')"
        by (rule same_counts_add_warning[OF Cons.prems])
      from ih[OF this, of in_faces faces_found "n + 1" faces "n' + 1"] show ?thesis
        by (simp only: append_Cons faces_loop_data[OF data] Inl sum.case)
    next
      case (Inr r)
      show ?thesis
      proof (cases r)
        case None
        show ?thesis
          using ih[OF Cons.prems, of in_faces faces_found "n + 1" faces "n' + 1"]
          by (simp only: append_Cons faces_loop_data[OF data] Inr None sum.case option.case)
      next
        case (Some face)
        show ?thesis
          using ih[OF Cons.prems, of in_faces faces_found "n + 1" "faces @ [face]" "n' + 1"]
          by (simp only: append_Cons faces_loop_data[OF data] Inr Some sum.case option.case)
      qed
    qed
  qed
qed

lemma same_counts_refl: "same_counts st st"
  by (simp add: same_counts_def)

text \<open>
  C5 (amended). A face line with fewer than three edge references (fewer than four tokens, the
  type tag included) does not make the Faces pass raise and is skipped without any warning:
  the loop only advances its line counter. The returned list is the one the file without that
  line gives, so the faces after it move up one position, and the numbers of warnings and
  errors are those of the file without the line.
\<close>

theorem parse_faces_full_short_line:
  assumes "\<not> contains (strip line) ''Faces (''" "strip line \<noteq> ''}''"
    "length (face_parts (strip line)) < 4"
  shows "faces_loop (line # rest) in_faces faces_found line_num faces st =
           faces_loop rest in_faces faces_found (line_num + 1) faces st \<and>
         fst (parse_faces_full (pre @ line # rest) st) = fst (parse_faces_full (pre @ rest) st) \<and>
         same_counts (snd (parse_faces_full (pre @ line # rest) st))
                     (snd (parse_faces_full (pre @ rest) st))"
proof -
  let ?a = "faces_loop (pre @ line # rest) False False 0 [] st"
  let ?b = "faces_loop (pre @ rest) False False 0 [] st"
  have r: "same_result ?a ?b"
    by (rule faces_loop_remove_line[OF assms same_counts_refl])
  obtain fa la sa where a: "?a = (fa, la, sa)" by (cases ?a) auto
  obtain fb lb sb where b: "?b = (fb, lb, sb)" by (cases ?b) auto
  from r have e: "fa = fb" "la = lb" "same_counts sa sb"
    by (simp_all add: same_result_def a b)
  have "fst (parse_faces_full (pre @ line # rest) st) = fst (parse_faces_full (pre @ rest) st)"
    using e by (simp add: parse_faces_full_def a b)
  moreover have "same_counts (snd (parse_faces_full (pre @ line # rest) st))
                     (snd (parse_faces_full (pre @ rest) st))"
    using e by (simp add: parse_faces_full_def a b same_counts_add_error)
  ultimately show ?thesis
    using faces_loop_skip[OF assms] by blast
qed

lemma short_line_tokens:
  "\<not> contains (strip ''  3 0 4'') ''Faces ('' \<and> strip ''  3 0 4'' \<noteq> ''}'' \<and>
   face_parts (strip ''  3 0 4'') = [''3'', ''0'', ''4'']"
  by code_simp

theorem parse_faces_full_short_line_witness:
  "\<not> contains (strip ''  3 0 4'') ''Faces ('' \<and> strip ''  3 0 4'' \<noteq> ''}'' \<and>
   face_parts (strip ''  3 0 4'') = [''3'', ''0'', ''4''] \<and>
   short_face_file = [''Faces (3) {'', ''  3 0 1 2''] @ ''  3 0 4'' # [''  3 1 5 -5'', ''}''] \<and>
   fst (parse_faces_full [''Faces (3) {'', ''  3 0 1 2'', ''  3 1 5 -5'', ''}''] fresh_diagnostics) =
     [(0, 1, 2), (1, 5, - 5)] \<and>
   fst (parse_faces_full short_face_file fresh_diagnostics) = [(0, 1, 2), (1, 5, - 5)]"
proof -
  have f: "short_face_file = [''Faces (3) {'', ''  3 0 1 2''] @ ''  3 0 4'' # [''  3 1 5 -5'', ''}'']"
    by (simp add: short_face_file_def)
  have l: "length (face_parts (strip ''  3 0 4'')) < 4"
    using short_line_tokens by simp
  have g: "fst (parse_faces_full [''Faces (3) {'', ''  3 0 1 2'', ''  3 1 5 -5'', ''}'']
                  fresh_diagnostics) = [(0, 1, 2), (1, 5, - 5)]"
    by code_simp
  from parse_faces_full_short_line[where line = "''  3 0 4''"
      and rest = "[''  3 1 5 -5'', ''}'']" and pre = "[''Faces (3) {'', ''  3 0 1 2'']"
      and st = fresh_diagnostics] short_line_tokens l
  have "fst (parse_faces_full ([''Faces (3) {'', ''  3 0 1 2''] @ ''  3 0 4'' # [''  3 1 5 -5'', ''}''])
               fresh_diagnostics) =
        fst (parse_faces_full ([''Faces (3) {'', ''  3 0 1 2''] @ [''  3 1 5 -5'', ''}''])
               fresh_diagnostics)"
    by blast
  then have "fst (parse_faces_full short_face_file fresh_diagnostics) = [(0, 1, 2), (1, 5, - 5)]"
    using g unfolding f by simp
  then show ?thesis using short_line_tokens f g by blast
qed

text \<open>
  The claim as first stated has exactly one warning recorded for the short line. The pass
  over the block with the short line, bare or in the indexed form, records none.
\<close>

theorem parse_faces_full_short_line_no_warning:
  "parse_faces_full short_face_file fresh_diagnostics =
     ([(0, 1, 2), (1, 5, - 5)], fresh_diagnostics) \<and>
   parse_faces_full short_face_file_indexed fresh_diagnostics =
     ([(0, 1, 2), (1, 5, - 5)], fresh_diagnostics) \<and>
   parse_warnings (snd (parse_faces_full short_face_file fresh_diagnostics)) = []"
proof -
  have a: "parse_faces_full short_face_file fresh_diagnostics =
     ([(0, 1, 2), (1, 5, - 5)], fresh_diagnostics)"
    by code_simp
  have b: "parse_faces_full short_face_file_indexed fresh_diagnostics =
     ([(0, 1, 2), (1, 5, - 5)], fresh_diagnostics)"
    by code_simp
  have c: "parse_warnings fresh_diagnostics = []"
    by (simp add: fresh_diagnostics_def)
  show ?thesis by (simp only: a b snd_conv c)
qed

end
